theory Spec2Isabelle
  imports Main "HOL-Library.Word"
begin

unbundle bit_operations_syntax

chapter \<open>vfyne: snapshot comparison, artifact lifecycle and reporting\<close>

text \<open>
  A shallow embedding of the comparison and reporting core of the vfyne visual testing
  harness (Go): \<^verbatim>\<open>testing/vfyne.go\<close> (snapshot controller, comparator, file-name
  sanitization), \<^verbatim>\<open>fynetest.go\<close> (test validation and the runner),
  \<^verbatim>\<open>builder.go\<close> (suite runs, exit status) and the report generator
  (\<^verbatim>\<open>createSummary\<close>, HTML and JSON reports).
\<close>

section \<open>Images (Go's \<^verbatim>\<open>image\<close> and \<^verbatim>\<open>image/color\<close> as used by the comparator)\<close>

text \<open>
  \<^verbatim>\<open>image.Point\<close> and \<^verbatim>\<open>image.Rectangle\<close>. Coordinates are Go \<^verbatim>\<open>int\<close>s (64 bits),
  modelled as integers. The loops below only ever increment a counter that is strictly
  below \<^verbatim>\<open>Max\<close>, so they never wrap; the subtractions of \<^verbatim>\<open>Dx()\<close> and \<^verbatim>\<open>Dy()\<close> do
  wrap, which \<open>int64\<close> writes out.
\<close>

record point =
  X :: int
  Y :: int

record rectangle =
  Min_pt :: point
  Max_pt :: point

definition rect :: "int \<Rightarrow> int \<Rightarrow> int \<Rightarrow> int \<Rightarrow> rectangle" where
  "rect x0 y0 x1 y1 = \<lparr>Min_pt = \<lparr>X = x0, Y = y0\<rparr>, Max_pt = \<lparr>X = x1, Y = y1\<rparr>\<rparr>"

definition int64 :: "int \<Rightarrow> int" where
  "int64 n = sint (word_of_int n :: 64 word)"

definition Dx :: "rectangle \<Rightarrow> int" where
  "Dx r = int64 (X (Max_pt r) - X (Min_pt r))"

definition Dy :: "rectangle \<Rightarrow> int" where
  "Dy r = int64 (Y (Max_pt r) - Y (Min_pt r))"

text \<open>\<^verbatim>\<open>Point.In\<close>: the half-open membership test of a rectangle.\<close>

definition point_In :: "int \<Rightarrow> int \<Rightarrow> rectangle \<Rightarrow> bool" where
  "point_In x y r \<longleftrightarrow>
     X (Min_pt r) \<le> x \<and> x < X (Max_pt r) \<and> Y (Min_pt r) \<le> y \<and> y < Y (Max_pt r)"

text \<open>
  A \<^verbatim>\<open>color.Color\<close> interface value: its dynamic type together with its value.
  \<^verbatim>\<open>color.RGBA\<close> (alpha-premultiplied) and \<^verbatim>\<open>color.NRGBA\<close> are spelled out; a value of
  any other dynamic type is \<open>OtherColor\<close>. What the code does with such a value is
  given by two parameters, collected in \<open>color_methods\<close>: its \<^verbatim>\<open>RGBA()\<close> method, and
  the outcome of Go's \<^verbatim>\<open>==\<close> on two such interface values, which is \<open>None\<close> when the
  comparison panics (equal dynamic types that are not comparable) and need not be
  reflexive (a colour type holding a floating-point NaN).
\<close>

datatype 'o color =
    RGBA "8 word" "8 word" "8 word" "8 word"
  | NRGBA "8 word" "8 word" "8 word" "8 word"
  | OtherColor 'o

type_synonym quad32 = "32 word \<times> 32 word \<times> 32 word \<times> 32 word"

record 'o color_methods =
  other_RGBA :: "'o \<Rightarrow> quad32"
  other_equal :: "'o \<Rightarrow> 'o \<Rightarrow> bool option"

text \<open>
  The \<^verbatim>\<open>RGBA()\<close> methods of \<^verbatim>\<open>color.RGBA\<close> and \<^verbatim>\<open>color.NRGBA\<close> (16-bit channels in
  32-bit words) and \<^verbatim>\<open>color.RGBAModel.Convert\<close>, which keeps a \<^verbatim>\<open>color.RGBA\<close> as it is
  and truncates every other colour to its 8-bit alpha-premultiplied channels.
\<close>

definition widen16 :: "8 word \<Rightarrow> 32 word" where
  "widen16 c = (let r = ucast c in r OR push_bit 8 r)"

definition premul16 :: "8 word \<Rightarrow> 8 word \<Rightarrow> 32 word" where
  "premul16 c a = (widen16 c * ucast a) div 0xff"

definition color_RGBA :: "'o color_methods \<Rightarrow> 'o color \<Rightarrow> quad32" where
  "color_RGBA m c =
     (case c of
        RGBA r g b a \<Rightarrow> (widen16 r, widen16 g, widen16 b, widen16 a)
      | NRGBA r g b a \<Rightarrow> (premul16 r a, premul16 g a, premul16 b a, widen16 a)
      | OtherColor d \<Rightarrow> other_RGBA m d)"

definition rgbaModel :: "'o color_methods \<Rightarrow> 'o color \<Rightarrow> 'o color" where
  "rgbaModel m c =
     (case c of
        RGBA r g b a \<Rightarrow> c
      | _ \<Rightarrow> (case color_RGBA m c of
               (r, g, b, a) \<Rightarrow> RGBA (ucast (drop_bit 8 r)) (ucast (drop_bit 8 g))
                                    (ucast (drop_bit 8 b)) (ucast (drop_bit 8 a))))"

text \<open>
  Go's \<^verbatim>\<open>==\<close> on two \<^verbatim>\<open>color.Color\<close> values (\<^verbatim>\<open>!=\<close> is its negation): values of
  different dynamic types are unequal, two \<^verbatim>\<open>color.RGBA\<close> or two \<^verbatim>\<open>color.NRGBA\<close> are
  compared field by field, and two values of other types as the parameter says.
\<close>

definition interface_equal :: "'o color_methods \<Rightarrow> 'o color \<Rightarrow> 'o color \<Rightarrow> bool option" where
  "interface_equal m c d =
     (case c of
        OtherColor x \<Rightarrow> (case d of OtherColor y \<Rightarrow> other_equal m x y | _ \<Rightarrow> Some False)
      | _ \<Rightarrow> Some (c = d))"

text \<open>
  An \<^verbatim>\<open>image.Image\<close>: the two methods the comparator calls, \<^verbatim>\<open>Bounds()\<close> and
  \<^verbatim>\<open>At(x, y)\<close>.
\<close>

record 'o image =
  Bounds :: rectangle
  At :: "int \<Rightarrow> int \<Rightarrow> 'o color"

text \<open>Concrete images for the worked examples: one colour everywhere; no other colour types.\<close>

definition uniform_image :: "rectangle \<Rightarrow> unit color \<Rightarrow> unit image" where
  "uniform_image r c = \<lparr>Bounds = r, At = (\<lambda>x y. c)\<rparr>"

definition no_other :: "unit color_methods" where
  "no_other = \<lparr>other_RGBA = (\<lambda>u. (0, 0, 0, 0)), other_equal = (\<lambda>u v. Some True)\<rparr>"

text \<open>
  The ways the comparator can end without a result: a panic of the colour comparison,
  and \<^verbatim>\<open>image.NewRGBA\<close> not returning an image.
\<close>

datatype error = Comparison_panic | NewRGBA_panic

subsection \<open>\<^verbatim>\<open>imagesEqual\<close> (testing/vfyne.go, lines 215-230)\<close>

text \<open>
  The inner loop over \<open>x\<close> and the outer loop over \<open>y\<close>; \<open>Inr False\<close> is the early
  \<^verbatim>\<open>return false\<close>, \<open>Inr True\<close> means the loop ran to its end, \<open>Inl\<close> is a panic of
  a comparison.
\<close>

function imagesEqual_row ::
  "'o color_methods \<Rightarrow> 'o image \<Rightarrow> 'o image \<Rightarrow> int \<Rightarrow> int \<Rightarrow> int \<Rightarrow> error + bool" where
  "imagesEqual_row m a b y x maxX =
     (if x < maxX
      then (case interface_equal m (At a x y) (At b x y) of
              None \<Rightarrow> Inl Comparison_panic
            | Some False \<Rightarrow> Inr False
            | Some True \<Rightarrow> imagesEqual_row m a b y (x + 1) maxX)
      else Inr True)"
  by pat_completeness auto
termination
  by (relation "measure (\<lambda>(m, a, b, y, x, maxX). nat (maxX - x))") auto

function imagesEqual_rows ::
  "'o color_methods \<Rightarrow> 'o image \<Rightarrow> 'o image \<Rightarrow> rectangle \<Rightarrow> int \<Rightarrow> error + bool" where
  "imagesEqual_rows m a b bounds y =
     (if y < Y (Max_pt bounds)
      then (case imagesEqual_row m a b y (X (Min_pt bounds)) (X (Max_pt bounds)) of
              Inl e \<Rightarrow> Inl e
            | Inr False \<Rightarrow> Inr False
            | Inr True \<Rightarrow> imagesEqual_rows m a b bounds (y + 1))
      else Inr True)"
  by pat_completeness auto
termination
  by (relation "measure (\<lambda>(m, a, b, bounds, y). nat (Y (Max_pt bounds) - y))") auto

definition imagesEqual :: "'o color_methods \<Rightarrow> 'o image \<Rightarrow> 'o image \<Rightarrow> error + bool" where
  "imagesEqual m a b =
     (if Bounds a \<noteq> Bounds b then Inr False
      else imagesEqual_rows m a b (Bounds a) (Y (Min_pt (Bounds a))))"

declare imagesEqual_row.simps [simp del]
declare imagesEqual_rows.simps [simp del]

subsection \<open>\<^verbatim>\<open>createDiffImage\<close> (testing/vfyne.go, lines 232-254)\<close>

text \<open>
  \<^verbatim>\<open>image.NewRGBA\<close> first checks the rectangle (it panics when a side is negative or
  the buffer length, 4 bytes per pixel, overflows an \<^verbatim>\<open>int\<close>), then allocates the buffer
  with \<^verbatim>\<open>make\<close>, which panics or aborts the process when the run time cannot provide
  that many bytes; \<open>mk n\<close> says whether an allocation of \<open>n\<close> bytes succeeds. Every
  pixel of the new image is the zero \<^verbatim>\<open>color.RGBA\<close>. \<^verbatim>\<open>(*image.RGBA).Set\<close> ignores
  points outside the rectangle and stores the colour converted by \<^verbatim>\<open>color.RGBAModel\<close>.
\<close>

definition pixelBufferLength_ok :: "rectangle \<Rightarrow> bool" where
  "pixelBufferLength_ok r \<longleftrightarrow>
     0 \<le> Dx r \<and> 0 \<le> Dy r \<and> 4 * Dx r < 2 ^ 64 \<and> 4 * Dx r * Dy r < 2 ^ 63"

definition NewRGBA :: "(int \<Rightarrow> bool) \<Rightarrow> rectangle \<Rightarrow> error + 'o image" where
  "NewRGBA mk r =
     (if pixelBufferLength_ok r \<and> mk (4 * Dx r * Dy r)
      then Inr \<lparr>Bounds = r, At = (\<lambda>x y. RGBA 0 0 0 0)\<rparr>
      else Inl NewRGBA_panic)"

definition RGBA_Set :: "'o color_methods \<Rightarrow> 'o image \<Rightarrow> int \<Rightarrow> int \<Rightarrow> 'o color \<Rightarrow> 'o image" where
  "RGBA_Set m p x y c =
     (if \<not> point_In x y (Bounds p) then p
      else p\<lparr>At := (\<lambda>x' y'. if x' = x \<and> y' = y then rgbaModel m c else At p x' y')\<rparr>)"

text \<open>
  The two loops of \<^verbatim>\<open>createDiffImage\<close>, threading the image under construction.
  \<open>errorColor\<close> is the value of \<^verbatim>\<open>theme.ErrorColor()\<close> (the toolkit's current theme).
\<close>

function createDiffImage_row ::
  "'o color_methods \<Rightarrow> 'o color \<Rightarrow> 'o image \<Rightarrow> 'o image \<Rightarrow> int \<Rightarrow> int \<Rightarrow> int \<Rightarrow> 'o image
     \<Rightarrow> error + 'o image" where
  "createDiffImage_row m errorColor expected actual y x maxX diff =
     (if x < maxX
      then (let e = At expected x y;
                a = At actual x y
            in case interface_equal m e a of
                 None \<Rightarrow> Inl Comparison_panic
               | Some eq \<Rightarrow>
                   createDiffImage_row m errorColor expected actual y (x + 1) maxX
                     (if \<not> eq then RGBA_Set m diff x y errorColor
                      else RGBA_Set m diff x y e))
      else Inr diff)"
  by pat_completeness auto
termination
  by (relation "measure (\<lambda>(m, ec, e, a, y, x, maxX, d). nat (maxX - x))") auto

function createDiffImage_rows ::
  "'o color_methods \<Rightarrow> 'o color \<Rightarrow> 'o image \<Rightarrow> 'o image \<Rightarrow> rectangle \<Rightarrow> int \<Rightarrow> 'o image
     \<Rightarrow> error + 'o image" where
  "createDiffImage_rows m errorColor expected actual bounds y diff =
     (if y < Y (Max_pt bounds)
      then (case createDiffImage_row m errorColor expected actual y
                   (X (Min_pt bounds)) (X (Max_pt bounds)) diff of
              Inl e \<Rightarrow> Inl e
            | Inr diff' \<Rightarrow> createDiffImage_rows m errorColor expected actual bounds (y + 1) diff')
      else Inr diff)"
  by pat_completeness auto
termination
  by (relation "measure (\<lambda>(m, ec, e, a, bounds, y, d). nat (Y (Max_pt bounds) - y))") auto

text \<open>
  The result is \<open>Inr None\<close> for Go's \<^verbatim>\<open>nil\<close> (bounds differ), \<open>Inr (Some diff)\<close> for the
  diff image, and \<open>Inl\<close> when \<^verbatim>\<open>image.NewRGBA\<close> or a comparison panics.
\<close>

definition createDiffImage ::
  "(int \<Rightarrow> bool) \<Rightarrow> 'o color_methods \<Rightarrow> 'o color \<Rightarrow> 'o image \<Rightarrow> 'o image
     \<Rightarrow> error + 'o image option" where
  "createDiffImage mk m errorColor expected actual =
     (let bounds = Bounds expected in
      if bounds \<noteq> Bounds actual then Inr None
      else (case NewRGBA mk bounds of
              Inl e \<Rightarrow> Inl e
            | Inr diff \<Rightarrow>
                (case createDiffImage_rows m errorColor expected actual bounds
                        (Y (Min_pt bounds)) diff of
                   Inl e \<Rightarrow> Inl e
                 | Inr diff' \<Rightarrow> Inr (Some diff'))))"

declare createDiffImage_row.simps [simp del]
declare createDiffImage_rows.simps [simp del]

text \<open>
  For the statements below: the colour the diff loop stores at a position (before
  clipping by \<^verbatim>\<open>Set\<close>); no comparison panics inside a rectangle; the pixel of the diff
  image at a coordinate, when a diff image was produced; a two-pixel image; and a run
  time that provides allocations up to a limit.
\<close>

definition diff_pixel ::
  "'o color_methods \<Rightarrow> 'o color \<Rightarrow> 'o image \<Rightarrow> 'o image \<Rightarrow> int \<Rightarrow> int \<Rightarrow> 'o color" where
  "diff_pixel m ec e a x y =
     (if interface_equal m (At e x y) (At a x y) = Some True then rgbaModel m (At e x y)
      else rgbaModel m ec)"

definition comparable_in ::
  "'o color_methods \<Rightarrow> 'o image \<Rightarrow> 'o image \<Rightarrow> rectangle \<Rightarrow> bool" where
  "comparable_in m a b r \<longleftrightarrow>
     (\<forall>x y. point_In x y r \<longrightarrow> interface_equal m (At a x y) (At b x y) \<noteq> None)"

definition diff_at ::
  "(int \<Rightarrow> bool) \<Rightarrow> 'o color_methods \<Rightarrow> 'o color \<Rightarrow> 'o image \<Rightarrow> 'o image \<Rightarrow> int \<Rightarrow> int
     \<Rightarrow> 'o color option" where
  "diff_at mk m ec expected actual x y =
     (case createDiffImage mk m ec expected actual of
        Inr (Some d) \<Rightarrow> Some (At d x y)
      | _ \<Rightarrow> None)"

definition two_pixel :: "unit color \<Rightarrow> unit color \<Rightarrow> unit image" where
  "two_pixel c0 c1 = \<lparr>Bounds = rect 0 0 2 1, At = (\<lambda>x y. if x = 0 then c0 else c1)\<rparr>"

definition make_below :: "int \<Rightarrow> int \<Rightarrow> bool" where
  "make_below limit n \<longleftrightarrow> n \<le> limit"

section \<open>File names (testing/vfyne.go)\<close>

text \<open>
  A Go string is modelled by the sequence of runes that \<^verbatim>\<open>regexp\<close> and
  \<^verbatim>\<open>strings.ToLower\<close> iterate over: the code points of its UTF-8 decoding, an invalid
  byte counting as the rune U+FFFD. \<open>runes\<close> writes an ASCII literal.
\<close>

type_synonym rune = nat
type_synonym gostring = "rune list"

definition runes :: "string \<Rightarrow> gostring" where
  "runes s = map of_char s"

text \<open>
  The character class \<^verbatim>\<open>[a-zA-Z0-9_-]\<close> of the source's regular expression, and the
  class \<^verbatim>\<open>[a-z0-9_-]\<close> of the specification.
\<close>

definition class_mixed :: "rune \<Rightarrow> bool" where
  "class_mixed r \<longleftrightarrow>
     (0x61 \<le> r \<and> r \<le> 0x7A) \<or> (0x41 \<le> r \<and> r \<le> 0x5A) \<or> (0x30 \<le> r \<and> r \<le> 0x39)
     \<or> r = 0x5F \<or> r = 0x2D"

definition class_lower :: "rune \<Rightarrow> bool" where
  "class_lower r \<longleftrightarrow>
     (0x61 \<le> r \<and> r \<le> 0x7A) \<or> (0x30 \<le> r \<and> r \<le> 0x39) \<or> r = 0x5F \<or> r = 0x2D"

text \<open>
  \<^verbatim>\<open>regexp.MustCompile(`[^...]+`).ReplaceAllString(name, "_")\<close>: every maximal run of
  runes outside the class \<open>cls\<close> is replaced by one underscore (the pattern is valid, so
  \<^verbatim>\<open>MustCompile\<close> does not panic, and the replacement contains no \<^verbatim>\<open>$\<close>).
\<close>

function replace_runs :: "(rune \<Rightarrow> bool) \<Rightarrow> gostring \<Rightarrow> gostring" where
  "replace_runs cls [] = []"
| "replace_runs cls (c # cs) =
     (if cls c then c # replace_runs cls cs
      else 0x5F # replace_runs cls (dropWhile (\<lambda>r. \<not> cls r) cs))"
  by pat_completeness auto
termination
  by (relation "measure (\<lambda>(cls, s). length s)")
     (auto simp add: le_imp_less_Suc length_dropWhile_le)

text \<open>\<^verbatim>\<open>strings.Trim(s, cutset)\<close>: drop leading and trailing runes that occur in the cutset.\<close>

definition strings_Trim :: "gostring \<Rightarrow> gostring \<Rightarrow> gostring" where
  "strings_Trim s cutset =
     rev (dropWhile (\<lambda>r. r \<in> set cutset) (rev (dropWhile (\<lambda>r. r \<in> set cutset) s)))"

text \<open>
  \<^verbatim>\<open>strings.ToLower\<close> maps every rune by \<^verbatim>\<open>unicode.ToLower\<close>. The table is given where
  its value is an ASCII rune: the letters A to Z, U+0130 (capital I with dot above, to
  \<^verbatim>\<open>i\<close>) and U+212A (the Kelvin sign, to \<^verbatim>\<open>k\<close>). Every other rune above U+007F has a
  lower case above U+007F; it stands for itself here, which the functions below cannot
  tell apart from its real lower case, since both lie outside either character class.
\<close>

definition unicode_ToLower :: "rune \<Rightarrow> rune" where
  "unicode_ToLower r =
     (if 0x41 \<le> r \<and> r \<le> 0x5A then r + 32
      else if r = 0x130 then 0x69
      else if r = 0x212A then 0x6B
      else r)"

definition strings_ToLower :: "gostring \<Rightarrow> gostring" where
  "strings_ToLower s = map unicode_ToLower s"

text \<open>\<^verbatim>\<open>sanitizeFilename\<close> (testing/vfyne.go, lines 188-193).\<close>

definition sanitizeFilename :: "gostring \<Rightarrow> gostring" where
  "sanitizeFilename name =
     (let sanitized = replace_runs class_mixed name;
          sanitized = strings_Trim sanitized (runes ''_'')
      in strings_ToLower sanitized)"

text \<open>
  The specification's wording of the same function: lower-case the name, replace every
  run of characters outside \<^verbatim>\<open>[a-z0-9_-]\<close> by one underscore, trim underscores.
\<close>

definition sanitize_spec :: "gostring \<Rightarrow> gostring" where
  "sanitize_spec name =
     strings_Trim (replace_runs class_lower (strings_ToLower name)) (runes ''_'')"

text \<open>
  The same three steps with a lower-casing that touches the ASCII letters only.
\<close>

definition ascii_ToLower :: "rune \<Rightarrow> rune" where
  "ascii_ToLower r = (if 0x41 \<le> r \<and> r \<le> 0x5A then r + 32 else r)"

definition sanitize_ascii :: "gostring \<Rightarrow> gostring" where
  "sanitize_ascii name =
     strings_Trim (replace_runs class_lower (map ascii_ToLower name)) (runes ''_'')"

section \<open>The snapshot controller (testing/vfyne.go)\<close>

subsection \<open>Files and the operating system\<close>

text \<open>
  The file system as the controller sees it: the content at each path, and the paths
  that \<^verbatim>\<open>os.Create\<close> opened for writing, in order. A file holds the PNG encoding of
  an image (\<open>Encoded\<close>) or bytes that do not decode (a file truncated by
  \<^verbatim>\<open>os.Create\<close> whose encoding then failed, or a foreign file).
\<close>

datatype 'o file_content = Encoded "'o image" | Garbage

record 'o filesys =
  files :: "gostring \<rightharpoonup> 'o file_content"
  writes :: "gostring list"

text \<open>
  What the environment decides: whether \<^verbatim>\<open>os.MkdirAll\<close>, \<^verbatim>\<open>os.Create\<close>,
  \<^verbatim>\<open>png.Encode\<close> and \<^verbatim>\<open>os.Open\<close> succeed for a path, whether \<^verbatim>\<open>os.Stat\<close> fails
  with an error other than "does not exist", the image that \<^verbatim>\<open>png.Decode\<close>
  returns for the encoding of an image, and whether the run time can allocate a buffer
  of a given number of bytes (for \<^verbatim>\<open>image.NewRGBA\<close>).
\<close>

record 'o io_env =
  mkdirall_ok :: "gostring \<Rightarrow> bool"
  create_ok :: "gostring \<Rightarrow> bool"
  encode_ok :: "gostring \<Rightarrow> bool"
  stat_fails :: "gostring \<Rightarrow> bool"
  open_ok :: "gostring \<Rightarrow> bool"
  png_Decode :: "'o image \<Rightarrow> 'o image"
  make_ok :: "int \<Rightarrow> bool"

text \<open>\<^verbatim>\<open>saveImage\<close> (lines 195-203): \<^verbatim>\<open>os.Create\<close> truncates, then \<^verbatim>\<open>png.Encode\<close> writes.\<close>

definition saveImage ::
  "'o io_env \<Rightarrow> 'o filesys \<Rightarrow> gostring \<Rightarrow> 'o image \<Rightarrow> 'o filesys \<times> bool" where
  "saveImage io fs path img =
     (if \<not> create_ok io path then (fs, False)
      else if \<not> encode_ok io path
      then (\<lparr>files = (files fs)(path \<mapsto> Garbage), writes = writes fs @ [path]\<rparr>, False)
      else (\<lparr>files = (files fs)(path \<mapsto> Encoded img), writes = writes fs @ [path]\<rparr>, True))"

text \<open>\<^verbatim>\<open>loadImage\<close> (lines 205-213); \<open>None\<close> is any error of \<^verbatim>\<open>os.Open\<close> or \<^verbatim>\<open>png.Decode\<close>.\<close>

definition loadImage :: "'o io_env \<Rightarrow> 'o filesys \<Rightarrow> gostring \<Rightarrow> 'o image option" where
  "loadImage io fs path =
     (if \<not> open_ok io path then None
      else (case files fs path of
              None \<Rightarrow> None
            | Some Garbage \<Rightarrow> None
            | Some (Encoded img) \<Rightarrow> Some (png_Decode io img)))"

text \<open>\<^verbatim>\<open>os.Stat\<close>, as far as \<^verbatim>\<open>os.IsNotExist\<close> looks at its error.\<close>

datatype stat_result = Stat_ok | Stat_not_exist | Stat_error

definition os_Stat :: "'o io_env \<Rightarrow> 'o filesys \<Rightarrow> gostring \<Rightarrow> stat_result" where
  "os_Stat io fs path =
     (if stat_fails io path then Stat_error
      else if files fs path = None then Stat_not_exist
      else Stat_ok)"

subsection \<open>The test handle\<close>

text \<open>
  The messages of \<^verbatim>\<open>Snapshot\<close>, one constructor per call site of \<^verbatim>\<open>t.Fatalf\<close>,
  \<^verbatim>\<open>t.Errorf\<close> and \<^verbatim>\<open>t.Logf\<close>. \<^verbatim>\<open>Errorf\<close> marks the test failed and goes on;
  \<^verbatim>\<open>Fatalf\<close> marks it failed and stops it; a panic of a colour comparison or of
  \<^verbatim>\<open>image.NewRGBA\<close> ends it too.
\<close>

datatype event =
    Fatalf_mkdir
  | Fatalf_save
  | Fatalf_load
  | Errorf_missing gostring
  | Errorf_mismatch gostring
  | Logf_updated gostring
  | Logf_actual gostring
  | Logf_diff gostring
  | Logf_matched gostring

datatype completion = Running | Aborted | Panicked

record 'o tstate =
  failed :: bool
  status :: completion
  log :: "event list"
  fsys :: "'o filesys"

definition T_Logf :: "'o tstate \<Rightarrow> event \<Rightarrow> 'o tstate" where
  "T_Logf s ev = s\<lparr>log := log s @ [ev]\<rparr>"

definition T_Errorf :: "'o tstate \<Rightarrow> event \<Rightarrow> 'o tstate" where
  "T_Errorf s ev = s\<lparr>log := log s @ [ev], failed := True\<rparr>"

definition T_Fatalf :: "'o tstate \<Rightarrow> event \<Rightarrow> 'o tstate" where
  "T_Fatalf s ev = s\<lparr>log := log s @ [ev], failed := True, status := Aborted\<rparr>"

subsection \<open>Paths\<close>

text \<open>
  \<^verbatim>\<open>filepath.Join\<close> of a clean, non-empty directory and a file name without a
  separator. \<open>New\<close> takes \<^verbatim>\<open>filepath.Dir(t.Name())\<close> as its argument. The four paths
  are the ones \<^verbatim>\<open>Snapshot\<close> builds from the sanitized name.
\<close>

definition filepath_Join :: "gostring \<Rightarrow> gostring \<Rightarrow> gostring" where
  "filepath_Join dir file = dir @ runes ''/'' @ file"

record vfyne_test =
  snapshotDir :: gostring
  screenshotDir :: gostring

definition New :: "gostring \<Rightarrow> vfyne_test" where
  "New dir =
     (let testDir = (if dir = runes ''.'' then runes ''testdata'' else dir)
      in \<lparr>snapshotDir = filepath_Join testDir (runes ''snapshots''),
          screenshotDir = filepath_Join testDir (runes ''screenshots'')\<rparr>)"

definition snapshot_filename :: "gostring \<Rightarrow> gostring" where
  "snapshot_filename name = sanitizeFilename name @ runes ''.png''"

definition snapshotPath :: "vfyne_test \<Rightarrow> gostring \<Rightarrow> gostring" where
  "snapshotPath v name = filepath_Join (snapshotDir v) (snapshot_filename name)"

definition tempPath :: "vfyne_test \<Rightarrow> gostring \<Rightarrow> gostring" where
  "tempPath v name = filepath_Join (screenshotDir v) (runes ''failed_'' @ snapshot_filename name)"

definition diffPath :: "vfyne_test \<Rightarrow> gostring \<Rightarrow> gostring" where
  "diffPath v name = filepath_Join (screenshotDir v) (runes ''diff_'' @ snapshot_filename name)"

definition actualPath :: "vfyne_test \<Rightarrow> gostring \<Rightarrow> gostring" where
  "actualPath v name = filepath_Join (screenshotDir v) (runes ''actual_'' @ snapshot_filename name)"

subsection \<open>\<^verbatim>\<open>Snapshot\<close> (lines 92-162)\<close>

text \<open>
  The captured image \<open>img\<close> (the toolkit's \<^verbatim>\<open>canvas.Capture()\<close>) and the value of the
  \<^verbatim>\<open>-update-snapshots\<close> flag are arguments; window creation and closing belong to
  the toolkit and are not modelled. The errors of the \<^verbatim>\<open>saveImage\<close> calls in verify
  mode are ignored, as in the source.
\<close>

definition Snapshot ::
  "'o color_methods \<Rightarrow> 'o color \<Rightarrow> vfyne_test \<Rightarrow> bool \<Rightarrow> 'o io_env \<Rightarrow> gostring \<Rightarrow> 'o image
     \<Rightarrow> 'o tstate \<Rightarrow> 'o tstate" where
  "Snapshot m errorColor v updateSnapshots io name img s =
     (if updateSnapshots then
        (if \<not> mkdirall_ok io (snapshotDir v) then T_Fatalf s Fatalf_mkdir
         else (case saveImage io (fsys s) (snapshotPath v name) img of
                 (fs', ok) \<Rightarrow>
                   if \<not> ok then T_Fatalf (s\<lparr>fsys := fs'\<rparr>) Fatalf_save
                   else T_Logf (s\<lparr>fsys := fs'\<rparr>) (Logf_updated (snapshotPath v name))))
      else
        (if os_Stat io (fsys s) (snapshotPath v name) = Stat_not_exist then
           (let s1 = T_Errorf s (Errorf_missing (snapshotPath v name)) in
            if mkdirall_ok io (screenshotDir v)
            then T_Logf (s1\<lparr>fsys := fst (saveImage io (fsys s1) (tempPath v name) img)\<rparr>)
                   (Logf_actual (tempPath v name))
            else s1)
         else
           (case loadImage io (fsys s) (snapshotPath v name) of
              None \<Rightarrow> T_Fatalf s Fatalf_load
            | Some expected \<Rightarrow>
                (case imagesEqual m expected img of
                   Inl e \<Rightarrow> s\<lparr>status := Panicked\<rparr>
                 | Inr True \<Rightarrow> T_Logf s (Logf_matched name)
                 | Inr False \<Rightarrow>
                     (let s1 = T_Errorf s (Errorf_mismatch name) in
                      if mkdirall_ok io (screenshotDir v) then
                        (let s2 = s1\<lparr>fsys := fst (saveImage io (fsys s1) (actualPath v name) img)\<rparr> in
                         case createDiffImage (make_ok io) m errorColor expected img of
                           Inl e \<Rightarrow> s2\<lparr>status := Panicked\<rparr>
                         | Inr None \<Rightarrow> T_Logf s2 (Logf_actual (actualPath v name))
                         | Inr (Some diff) \<Rightarrow>
                             T_Logf
                               (T_Logf (s2\<lparr>fsys := fst (saveImage io (fsys s2) (diffPath v name) diff)\<rparr>)
                                  (Logf_diff (diffPath v name)))
                               (Logf_actual (actualPath v name)))
                      else s1)))))"

text \<open>An environment in which every operation succeeds, a fresh test over a file system, and example data.\<close>

definition io_all_ok :: "unit io_env" where
  "io_all_ok = \<lparr>mkdirall_ok = (\<lambda>p. True), create_ok = (\<lambda>p. True), encode_ok = (\<lambda>p. True),
                stat_fails = (\<lambda>p. False), open_ok = (\<lambda>p. True), png_Decode = (\<lambda>i. i),
                make_ok = (\<lambda>n. True)\<rparr>"

definition new_run :: "'o filesys \<Rightarrow> 'o tstate" where
  "new_run fs = \<lparr>failed = False, status = Running, log = [], fsys = fs\<rparr>"

definition empty_filesys :: "'o filesys" where
  "empty_filesys = \<lparr>files = Map.empty, writes = []\<rparr>"

definition black_pixel :: "unit image" where
  "black_pixel = uniform_image (rect 0 0 1 1) (RGBA 0 0 0 255)"

definition white_pixel :: "unit image" where
  "white_pixel = uniform_image (rect 0 0 1 1) (RGBA 255 255 255 255)"

definition marker :: "unit color" where
  "marker = NRGBA 0xf4 0x43 0x36 0xff"

definition baseline_filesys :: "unit image \<Rightarrow> unit filesys" where
  "baseline_filesys img =
     \<lparr>files = [runes ''testdata/snapshots/foo.png'' \<mapsto> Encoded img], writes = []\<rparr>"

definition wide_black :: "unit image" where
  "wide_black = uniform_image (rect 0 0 2 1) (RGBA 0 0 0 255)"

text \<open>How often the trace of a verify-mode run contains the diff path (earlier writes included).\<close>

definition diff_writes ::
  "'o color_methods \<Rightarrow> 'o color \<Rightarrow> vfyne_test \<Rightarrow> 'o io_env \<Rightarrow> gostring \<Rightarrow> 'o image
     \<Rightarrow> 'o tstate \<Rightarrow> nat" where
  "diff_writes m ec v io name img s =
     count_list (writes (fsys (Snapshot m ec v False io name img s))) (diffPath v name)"

section \<open>The runner (fynetest.go)\<close>

text \<open>
  A \<^verbatim>\<open>Test\<close>: \<open>Setup\<close> is \<open>None\<close> for a nil function and otherwise holds what the
  function returns (\<open>None\<close> for nil content); \<open>WaitDuration\<close> is a \<^verbatim>\<open>time.Duration\<close>,
  a signed 64-bit count of nanoseconds. \<^verbatim>\<open>Size\<close> and \<^verbatim>\<open>Metadata\<close> play no part below and
  are left out. \<^verbatim>\<open>Validate\<close> (lines 68-90) returns the first failing check.
\<close>

datatype validate_error = Empty_name | Invalid_character rune | Nil_setup | Negative_wait

record ('c, 'th) test =
  Name :: gostring
  Description :: gostring
  Tags :: "gostring list"
  Setup :: "'c option option"
  Theme :: "'th option"
  WaitDuration :: "64 word"

definition invalidChars :: "rune list" where
  "invalidChars = [0x2F, 0x5C, 0x3A, 0x2A, 0x3F, 0x22, 0x3C, 0x3E, 0x7C]"

fun first_invalid :: "gostring \<Rightarrow> rune list \<Rightarrow> rune option" where
  "first_invalid name [] = None"
| "first_invalid name (c # cs) = (if c \<in> set name then Some c else first_invalid name cs)"

definition Validate :: "('c, 'th) test \<Rightarrow> validate_error option" where
  "Validate t =
     (if Name t = [] then Some Empty_name
      else (case first_invalid (Name t) invalidChars of
              Some c \<Rightarrow> Some (Invalid_character c)
            | None \<Rightarrow>
                if Setup t = None then Some Nil_setup
                else if sint (WaitDuration t) < 0 then Some Negative_wait
                else None))"

text \<open>
  \<^verbatim>\<open>Runner.RunTest\<close> (lines 169-279). The errors are its \<^verbatim>\<open>fmt.Errorf\<close> call sites; the
  effects are the calls it makes on the operating system and the toolkit, in order
  (\<open>ShowContent\<close> stands for \<^verbatim>\<open>SetContent\<close>, \<^verbatim>\<open>Resize\<close>, \<^verbatim>\<open>CenterOnScreen\<close> and
  \<^verbatim>\<open>Show\<close>). The environment says whether the directory can be made, whether the
  window has a canvas, what \<^verbatim>\<open>Capture\<close> returns, whether the image can be saved, and
  gives the clock readings. Calling a nil \<^verbatim>\<open>Setup\<close> would panic; \<^verbatim>\<open>Validate\<close> excludes
  it. The package's own \<^verbatim>\<open>sanitizeFilename\<close> (lines 402-410) differs from the one of the
  testing package.
\<close>

datatype run_error =
    Invalid_test_configuration validate_error
  | Failed_to_create_output_directory
  | Setup_returned_nil_content
  | Failed_to_get_canvas
  | Failed_to_capture_canvas_image
  | Failed_to_save_screenshot
  | Nil_setup_call_panic

record ('c, 'th, 'img) result =
  Test :: "('c, 'th) test"
  Success :: bool
  Error :: "run_error option"
  ScreenshotPath :: gostring
  Screenshot :: "'img option"
  Duration :: "64 word"

record 'th runner =
  OutputDir :: gostring
  DefaultTheme :: "'th option"
  DefaultWaitDuration :: "64 word"

datatype ('c, 'th) effect =
    MkdirAll gostring
  | EnsureApp
  | SetTheme 'th
  | NewWindow gostring
  | CallSetup
  | ShowContent 'c
  | Sleep "64 word"
  | Capture
  | CreateFile gostring
  | CloseWindow

record 'img run_env =
  mkdir_ok :: bool
  has_canvas :: bool
  captured :: "'img option"
  save_ok :: bool
  timestamp :: gostring
  elapsed :: "64 word"

definition fynetest_sanitizeFilename :: "gostring \<Rightarrow> gostring" where
  "fynetest_sanitizeFilename name =
     map (\<lambda>c. if c \<in> set (invalidChars @ runes '' '') then 0x5F else c) name"

definition RunTest ::
  "'th runner \<Rightarrow> 'img run_env \<Rightarrow> ('c, 'th) test
     \<Rightarrow> ('c, 'th, 'img) result \<times> ('c, 'th) effect list" where
  "RunTest r env t =
     (let result = \<lparr>Test = t, Success = False, Error = None, ScreenshotPath = [],
                     Screenshot = None, Duration = 0\<rparr>
      in case Validate t of
           Some err \<Rightarrow>
             (result\<lparr>Error := Some (Invalid_test_configuration err), Duration := elapsed env\<rparr>, [])
         | None \<Rightarrow>
             if \<not> mkdir_ok env
             then (result\<lparr>Error := Some Failed_to_create_output_directory, Duration := elapsed env\<rparr>,
                   [MkdirAll (OutputDir r)])
             else
               (let theme = (case Theme t of None \<Rightarrow> DefaultTheme r | Some th \<Rightarrow> Some th);
                    fx1 = [MkdirAll (OutputDir r), EnsureApp]
                          @ (case theme of None \<Rightarrow> [] | Some th \<Rightarrow> [SetTheme th])
                          @ [NewWindow (Name t), CallSetup]
                in case Setup t of
                     None \<Rightarrow>
                       (result\<lparr>Error := Some Nil_setup_call_panic, Duration := elapsed env\<rparr>, fx1)
                   | Some None \<Rightarrow>
                       (result\<lparr>Error := Some Setup_returned_nil_content, Duration := elapsed env\<rparr>,
                        fx1 @ [CloseWindow])
                   | Some (Some content) \<Rightarrow>
                       (let waitDuration = (if WaitDuration t = 0 then DefaultWaitDuration r
                                            else WaitDuration t);
                            fx2 = fx1 @ [ShowContent content, Sleep waitDuration]
                        in if \<not> has_canvas env
                           then (result\<lparr>Error := Some Failed_to_get_canvas, Duration := elapsed env\<rparr>,
                                 fx2 @ [CloseWindow])
                           else
                             (case captured env of
                                None \<Rightarrow>
                                  (result\<lparr>Error := Some Failed_to_capture_canvas_image,
                                          Duration := elapsed env\<rparr>,
                                   fx2 @ [Capture, CloseWindow])
                              | Some img \<Rightarrow>
                                  (let filename = fynetest_sanitizeFilename (Name t) @ runes ''_''
                                                  @ timestamp env @ runes ''.png'';
                                       path = filepath_Join (OutputDir r) filename
                                   in if \<not> save_ok env
                                      then (result\<lparr>Screenshot := Some img,
                                                   Error := Some Failed_to_save_screenshot,
                                                   Duration := elapsed env\<rparr>,
                                            fx2 @ [Capture, CreateFile path, CloseWindow])
                                      else (result\<lparr>Screenshot := Some img, Success := True,
                                                   ScreenshotPath := path,
                                                   Duration := elapsed env\<rparr>,
                                            fx2 @ [Capture, CreateFile path, CloseWindow]))))))"

text \<open>Example data: a well-formed test but for its negative wait, a runner, an environment.\<close>

definition negative_wait_test :: "(unit, unit) test" where
  "negative_wait_test =
     \<lparr>Name = runes ''login_form'', Description = [], Tags = [], Setup = Some (Some ()),
      Theme = None, WaitDuration = - 1\<rparr>"

definition default_runner :: "unit runner" where
  "default_runner =
     \<lparr>OutputDir = runes ''test-screenshots'', DefaultTheme = Some (),
      DefaultWaitDuration = 100000000\<rparr>"

definition ok_run_env :: "unit image run_env" where
  "ok_run_env =
     \<lparr>mkdir_ok = True, has_canvas = True, captured = Some black_pixel, save_ok = True,
      timestamp = runes ''20260101-000000'', elapsed = 1000\<rparr>"

section \<open>Summaries and reports (report generator, builder.go)\<close>

text \<open>
  \<^verbatim>\<open>float64\<close> arithmetic is not interpreted: conversion from an integer, division and
  multiplication are parameters. \<^verbatim>\<open>Summary.Duration\<close> is named \<open>TotalDuration\<close> here (a
  \<^verbatim>\<open>time.Duration\<close>, so the sum wraps like any 64-bit addition); the counters are Go
  \<^verbatim>\<open>int\<close>s bounded by the length of the slice. \<^verbatim>\<open>createSummary\<close> is at lines 138-160 of
  the report generator.
\<close>

record 'f float64_ops =
  float64_of_int :: "int \<Rightarrow> 'f"
  fdiv :: "'f \<Rightarrow> 'f \<Rightarrow> 'f"
  fmul :: "'f \<Rightarrow> 'f \<Rightarrow> 'f"

record 'f summary =
  Total :: int
  Passed :: int
  Failed :: int
  PassRate :: 'f
  TotalDuration :: "64 word"

definition summary_step :: "('c, 'th, 'img) result \<Rightarrow> 'f summary \<Rightarrow> 'f summary" where
  "summary_step result summary =
     (let summary = (if Success result then summary\<lparr>Passed := Passed summary + 1\<rparr>
                     else summary\<lparr>Failed := Failed summary + 1\<rparr>)
      in summary\<lparr>TotalDuration := TotalDuration summary + Duration result\<rparr>)"

definition createSummary :: "'f float64_ops \<Rightarrow> ('c, 'th, 'img) result list \<Rightarrow> 'f summary" where
  "createSummary ops results =
     (let summary = \<lparr>Total = int (length results), Passed = 0, Failed = 0,
                      PassRate = float64_of_int ops 0, TotalDuration = 0\<rparr>;
          summary = fold summary_step results summary
      in if Total summary > 0
         then summary\<lparr>PassRate :=
                fmul ops (fdiv ops (float64_of_int ops (Passed summary))
                                   (float64_of_int ops (Total summary)))
                         (float64_of_int ops 100)\<rparr>
         else summary)"

text \<open>
  \<^verbatim>\<open>SuiteResult\<close> and its methods (builder.go, lines 389-431). \<^verbatim>\<open>Duration()\<close> is the
  wall-clock difference \<^verbatim>\<open>EndTime.Sub(StartTime)\<close>; it does not depend on the results
  and is not modelled, nor are the name and the two times.
\<close>

record ('c, 'th, 'img) suite_result =
  Results :: "('c, 'th, 'img) result list"
  ResultOutputDir :: gostring
  ReportPath :: gostring

fun count_passed :: "('c, 'th, 'img) result list \<Rightarrow> int \<Rightarrow> int" where
  "count_passed [] count = count"
| "count_passed (r # rs) count = count_passed rs (if Success r then count + 1 else count)"

definition SuiteResult_Total :: "('c, 'th, 'img) suite_result \<Rightarrow> int" where
  "SuiteResult_Total sr = int (length (Results sr))"

definition SuiteResult_Passed :: "('c, 'th, 'img) suite_result \<Rightarrow> int" where
  "SuiteResult_Passed sr = count_passed (Results sr) 0"

definition SuiteResult_Failed :: "('c, 'th, 'img) suite_result \<Rightarrow> int" where
  "SuiteResult_Failed sr = SuiteResult_Total sr - SuiteResult_Passed sr"

definition SuiteResult_PassRate :: "'f float64_ops \<Rightarrow> ('c, 'th, 'img) suite_result \<Rightarrow> 'f" where
  "SuiteResult_PassRate ops sr =
     (if SuiteResult_Total sr = 0 then float64_of_int ops 0
      else fmul ops (fdiv ops (float64_of_int ops (SuiteResult_Passed sr))
                              (float64_of_int ops (SuiteResult_Total sr)))
                    (float64_of_int ops 100))"

text \<open>
  Report generation: \<^verbatim>\<open>GenerateJSONReport\<close> and \<^verbatim>\<open>GenerateHTMLReport\<close> (report
  generator, lines 41-113) with the outcome of each fallible step given by the
  environment. A failure of the JSON report is only printed as a warning.
\<close>

record report_env =
  report_dir_ok :: bool
  html_create_ok :: bool
  template_ok :: bool
  execute_ok :: bool
  json_create_ok :: bool
  json_encode_ok :: bool

datatype report_error =
    Failed_to_create_report_directory
  | Failed_to_create_HTML_report
  | Failed_to_create_template
  | Failed_to_execute_template
  | JSON_create_error
  | JSON_encode_error

datatype report_file = Index_html | Index_json

definition GenerateJSONReport :: "report_env \<Rightarrow> report_error option \<times> report_file list" where
  "GenerateJSONReport env =
     (if \<not> json_create_ok env then (Some JSON_create_error, [])
      else if \<not> json_encode_ok env then (Some JSON_encode_error, [Index_json])
      else (None, [Index_json]))"

text \<open>Returns the error, the files created and the warnings printed.\<close>

definition GenerateHTMLReport ::
  "report_env \<Rightarrow> report_error option \<times> report_file list \<times> report_error list" where
  "GenerateHTMLReport env =
     (if \<not> report_dir_ok env then (Some Failed_to_create_report_directory, [], [])
      else if \<not> html_create_ok env then (Some Failed_to_create_HTML_report, [], [])
      else if \<not> template_ok env then (Some Failed_to_create_template, [Index_html], [])
      else if \<not> execute_ok env then (Some Failed_to_execute_template, [Index_html], [])
      else (case GenerateJSONReport env of
              (Some err, fs) \<Rightarrow> (None, Index_html # fs, [err])
            | (None, fs) \<Rightarrow> (None, Index_html # fs, [])))"

text \<open>
  \<^verbatim>\<open>Suite.RunTests\<close> (builder.go, lines 170-206) on the results the runner returned and
  its output directory, and the exit status of \<^verbatim>\<open>Suite.RunCLI\<close> from the call of
  \<^verbatim>\<open>RunTests\<close> on (lines 285-298); flag parsing and filtering precede it.
\<close>

record suite_config =
  GenerateReport :: bool

datatype suite_error = Failed_to_generate_report report_error

definition Suite_RunTests ::
  "suite_config \<Rightarrow> report_env \<Rightarrow> ('c, 'th, 'img) result list \<Rightarrow> gostring
     \<Rightarrow> ('c, 'th, 'img) suite_result \<times> suite_error option" where
  "Suite_RunTests config env results outputDir =
     (let suiteResult = \<lparr>Results = results, ResultOutputDir = outputDir, ReportPath = []\<rparr>
      in if GenerateReport config
         then (let reportPath = filepath_Join outputDir (runes ''index.html'')
               in case GenerateHTMLReport env of
                    (Some err, fs, ws) \<Rightarrow> (suiteResult, Some (Failed_to_generate_report err))
                  | (None, fs, ws) \<Rightarrow> (suiteResult\<lparr>ReportPath := reportPath\<rparr>, None))
         else (suiteResult, None))"

definition RunCLI_exit ::
  "suite_config \<Rightarrow> report_env \<Rightarrow> ('c, 'th, 'img) result list \<Rightarrow> gostring \<Rightarrow> int" where
  "RunCLI_exit config env testResults outputDir =
     (case Suite_RunTests config env testResults outputDir of
        (result, Some err) \<Rightarrow> 1
      | (result, None) \<Rightarrow> if SuiteResult_Failed result > 0 then 1 else 0)"

text \<open>
  The end of \<^verbatim>\<open>main\<close> of the standalone runner (cmd/fynetest/main.go, lines 91-129):
  the exit status and the warnings printed.
\<close>

fun count_results :: "('c, 'th, 'img) result list \<Rightarrow> int \<times> int \<Rightarrow> int \<times> int" where
  "count_results [] (successCount, failureCount) = (successCount, failureCount)"
| "count_results (r # rs) (successCount, failureCount) =
     (if Success r then count_results rs (successCount + 1, failureCount)
      else count_results rs (successCount, failureCount + 1))"

definition main_exit :: "report_env \<Rightarrow> ('c, 'th, 'img) result list \<Rightarrow> int \<times> report_error list" where
  "main_exit env results =
     (case count_results results (0, 0) of
        (successCount, failureCount) \<Rightarrow>
          (case GenerateHTMLReport env of
             (Some err, fs, ws) \<Rightarrow> (if failureCount > 0 then 1 else 0, ws @ [err])
           | (None, fs, ws) \<Rightarrow> (if failureCount > 0 then 1 else 0, ws)))"

text \<open>All steps of the HTML report succeed; and example data.\<close>

definition html_report_ok :: "report_env \<Rightarrow> bool" where
  "html_report_ok env \<longleftrightarrow>
     report_dir_ok env \<and> html_create_ok env \<and> template_ok env \<and> execute_ok env"

definition passed_result :: "(unit, unit, unit image) result" where
  "passed_result =
     \<lparr>Test = negative_wait_test\<lparr>WaitDuration := 0\<rparr>, Success = True, Error = None,
      ScreenshotPath = runes ''test-screenshots/login_form_20260101-000000.png'',
      Screenshot = Some black_pixel, Duration = 1000\<rparr>"

definition report_env_ok :: report_env where
  "report_env_ok =
     \<lparr>report_dir_ok = True, html_create_ok = True, template_ok = True, execute_ok = True,
      json_create_ok = True, json_encode_ok = True\<rparr>"

chapter \<open>Properties\<close>

section \<open>The comparator\<close>

lemma interface_equal_std [simp]:
  "interface_equal m (RGBA r g b a) d = Some (RGBA r g b a = d)"
  "interface_equal m (NRGBA r g b a) d = Some (NRGBA r g b a = d)"
  by (simp_all add: interface_equal_def)

lemma interface_equal_std_right:
  "interface_equal m c (RGBA r g b a) = Some (c = RGBA r g b a)"
  "interface_equal m c (NRGBA r g b a) = Some (c = NRGBA r g b a)"
  by (cases c; simp add: interface_equal_def)+

lemma imagesEqual_row_total:
  assumes "\<forall>x'. x \<le> x' \<and> x' < maxX \<longrightarrow> interface_equal m (At a x' y) (At b x' y) \<noteq> None"
  shows "imagesEqual_row m a b y x maxX
           = Inr (\<forall>x'. x \<le> x' \<and> x' < maxX \<longrightarrow> interface_equal m (At a x' y) (At b x' y) = Some True)"
  using assms
proof (induction m a b y x maxX rule: imagesEqual_row.induct)
  case (1 m a b y x maxX)
  show ?case
  proof (cases "x < maxX")
    case False
    then show ?thesis by (auto simp add: imagesEqual_row.simps [of m a b y x maxX])
  next
    case True
    then have "interface_equal m (At a x y) (At b x y) \<noteq> None" using "1.prems" by simp
    then obtain eq where eq: "interface_equal m (At a x y) (At b x y) = Some eq" by auto
    show ?thesis
    proof (cases eq)
      case False
      have "\<not> (\<forall>x'. x \<le> x' \<and> x' < maxX \<longrightarrow> interface_equal m (At a x' y) (At b x' y) = Some True)"
        using True eq False by (metis option.inject order_refl)
      then show ?thesis
        using True eq False by (simp add: imagesEqual_row.simps [of m a b y x maxX])
    next
      case et: True
      have p: "\<forall>x'. x + 1 \<le> x' \<and> x' < maxX \<longrightarrow> interface_equal m (At a x' y) (At b x' y) \<noteq> None"
        using "1.prems" by simp
      have step: "imagesEqual_row m a b y x maxX = imagesEqual_row m a b y (x + 1) maxX"
        using True eq et by (simp add: imagesEqual_row.simps [of m a b y x maxX])
      have IH: "imagesEqual_row m a b y (x + 1) maxX
           = Inr (\<forall>x'. x + 1 \<le> x' \<and> x' < maxX \<longrightarrow> interface_equal m (At a x' y) (At b x' y) = Some True)"
        using "1.IH" True eq et p by simp
      have "(\<forall>x'. x + 1 \<le> x' \<and> x' < maxX \<longrightarrow> interface_equal m (At a x' y) (At b x' y) = Some True)
          \<longleftrightarrow> (\<forall>x'. x \<le> x' \<and> x' < maxX \<longrightarrow> interface_equal m (At a x' y) (At b x' y) = Some True)"
      proof
        assume h: "\<forall>x'. x + 1 \<le> x' \<and> x' < maxX \<longrightarrow> interface_equal m (At a x' y) (At b x' y) = Some True"
        show "\<forall>x'. x \<le> x' \<and> x' < maxX \<longrightarrow> interface_equal m (At a x' y) (At b x' y) = Some True"
        proof (rule allI, rule impI)
          fix x' assume "x \<le> x' \<and> x' < maxX"
          then consider "x' = x" | "x + 1 \<le> x' \<and> x' < maxX" by linarith
          then show "interface_equal m (At a x' y) (At b x' y) = Some True"
            using eq et h by cases auto
        qed
      next
        assume "\<forall>x'. x \<le> x' \<and> x' < maxX \<longrightarrow> interface_equal m (At a x' y) (At b x' y) = Some True"
        then show "\<forall>x'. x + 1 \<le> x' \<and> x' < maxX \<longrightarrow> interface_equal m (At a x' y) (At b x' y) = Some True"
          by simp
      qed
      then show ?thesis unfolding step IH by simp
    qed
  qed
qed

lemma imagesEqual_rows_total:
  assumes "\<forall>y' x'. y \<le> y' \<and> y' < Y (Max_pt bounds) \<and> X (Min_pt bounds) \<le> x' \<and> x' < X (Max_pt bounds)
             \<longrightarrow> interface_equal m (At a x' y') (At b x' y') \<noteq> None"
  shows "imagesEqual_rows m a b bounds y
           = Inr (\<forall>y' x'. y \<le> y' \<and> y' < Y (Max_pt bounds) \<and> X (Min_pt bounds) \<le> x' \<and> x' < X (Max_pt bounds)
                    \<longrightarrow> interface_equal m (At a x' y') (At b x' y') = Some True)"
  using assms
proof (induction m a b bounds y rule: imagesEqual_rows.induct)
  case (1 m a b bounds y)
  let ?P = "\<lambda>y' x'. interface_equal m (At a x' y') (At b x' y') = Some True"
  let ?row = "\<lambda>y'. \<forall>x'. X (Min_pt bounds) \<le> x' \<and> x' < X (Max_pt bounds) \<longrightarrow> ?P y' x'"
  show ?case
  proof (cases "y < Y (Max_pt bounds)")
    case False
    then show ?thesis by (auto simp add: imagesEqual_rows.simps [of m a b bounds y])
  next
    case True
    have rowp: "\<forall>x'. X (Min_pt bounds) \<le> x' \<and> x' < X (Max_pt bounds)
                  \<longrightarrow> interface_equal m (At a x' y) (At b x' y) \<noteq> None"
      using "1.prems" True by simp
    have row: "imagesEqual_row m a b y (X (Min_pt bounds)) (X (Max_pt bounds)) = Inr (?row y)"
      using imagesEqual_row_total [OF rowp] .
    show ?thesis
    proof (cases "?row y")
      case False
      then have "\<not> (\<forall>y' x'. y \<le> y' \<and> y' < Y (Max_pt bounds) \<and> X (Min_pt bounds) \<le> x'
                      \<and> x' < X (Max_pt bounds) \<longrightarrow> ?P y' x')"
        using True by (meson order_refl)
      then show ?thesis
        using True row False by (simp add: imagesEqual_rows.simps [of m a b bounds y])
    next
      case r: True
      have p: "\<forall>y' x'. y + 1 \<le> y' \<and> y' < Y (Max_pt bounds) \<and> X (Min_pt bounds) \<le> x'
                 \<and> x' < X (Max_pt bounds) \<longrightarrow> interface_equal m (At a x' y') (At b x' y') \<noteq> None"
        using "1.prems" by simp
      have rt: "imagesEqual_row m a b y (X (Min_pt bounds)) (X (Max_pt bounds)) = Inr True"
        using row r by simp
      have step: "imagesEqual_rows m a b bounds y = imagesEqual_rows m a b bounds (y + 1)"
        using True rt by (simp add: imagesEqual_rows.simps [of m a b bounds y])
      have IH: "imagesEqual_rows m a b bounds (y + 1)
           = Inr (\<forall>y' x'. y + 1 \<le> y' \<and> y' < Y (Max_pt bounds) \<and> X (Min_pt bounds) \<le> x'
                    \<and> x' < X (Max_pt bounds) \<longrightarrow> ?P y' x')"
        using "1.IH" True rt p by simp
      have "(\<forall>y' x'. y + 1 \<le> y' \<and> y' < Y (Max_pt bounds) \<and> X (Min_pt bounds) \<le> x'
                    \<and> x' < X (Max_pt bounds) \<longrightarrow> ?P y' x')
          \<longleftrightarrow> (\<forall>y' x'. y \<le> y' \<and> y' < Y (Max_pt bounds) \<and> X (Min_pt bounds) \<le> x'
                    \<and> x' < X (Max_pt bounds) \<longrightarrow> ?P y' x')"
      proof
        assume h: "\<forall>y' x'. y + 1 \<le> y' \<and> y' < Y (Max_pt bounds) \<and> X (Min_pt bounds) \<le> x'
                    \<and> x' < X (Max_pt bounds) \<longrightarrow> ?P y' x'"
        show "\<forall>y' x'. y \<le> y' \<and> y' < Y (Max_pt bounds) \<and> X (Min_pt bounds) \<le> x'
                    \<and> x' < X (Max_pt bounds) \<longrightarrow> ?P y' x'"
        proof (intro allI impI)
          fix y' x'
          assume a: "y \<le> y' \<and> y' < Y (Max_pt bounds) \<and> X (Min_pt bounds) \<le> x' \<and> x' < X (Max_pt bounds)"
          then consider "y' = y" | "y + 1 \<le> y'" by linarith
          then show "?P y' x'"
          proof cases
            case 1 then show ?thesis using r a by simp
          next
            case 2 then show ?thesis using h a by simp
          qed
        qed
      next
        assume "\<forall>y' x'. y \<le> y' \<and> y' < Y (Max_pt bounds) \<and> X (Min_pt bounds) \<le> x'
                    \<and> x' < X (Max_pt bounds) \<longrightarrow> ?P y' x'"
        then show "\<forall>y' x'. y + 1 \<le> y' \<and> y' < Y (Max_pt bounds) \<and> X (Min_pt bounds) \<le> x'
                    \<and> x' < X (Max_pt bounds) \<longrightarrow> ?P y' x'"
          by simp
      qed
      then show ?thesis unfolding step IH by simp
    qed
  qed
qed

lemma imagesEqual_total:
  assumes "comparable_in m a b (Bounds a)"
  shows "imagesEqual m a b
           = Inr (Bounds a = Bounds b
                  \<and> (\<forall>x y. point_In x y (Bounds a) \<longrightarrow> interface_equal m (At a x y) (At b x y) = Some True))"
proof (cases "Bounds a = Bounds b")
  case False
  then show ?thesis by (simp add: imagesEqual_def)
next
  case True
  have p: "\<forall>y' x'. Y (Min_pt (Bounds a)) \<le> y' \<and> y' < Y (Max_pt (Bounds a))
             \<and> X (Min_pt (Bounds a)) \<le> x' \<and> x' < X (Max_pt (Bounds a))
             \<longrightarrow> interface_equal m (At a x' y') (At b x' y') \<noteq> None"
    using assms by (simp add: comparable_in_def point_In_def)
  have "(\<forall>y' x'. Y (Min_pt (Bounds a)) \<le> y' \<and> y' < Y (Max_pt (Bounds a))
             \<and> X (Min_pt (Bounds a)) \<le> x' \<and> x' < X (Max_pt (Bounds a))
             \<longrightarrow> interface_equal m (At a x' y') (At b x' y') = Some True)
        \<longleftrightarrow> (\<forall>x y. point_In x y (Bounds a) \<longrightarrow> interface_equal m (At a x y) (At b x y) = Some True)"
    unfolding point_In_def by blast
  then have r: "imagesEqual_rows m a b (Bounds a) (Y (Min_pt (Bounds a)))
      = Inr (\<forall>x y. point_In x y (Bounds a) \<longrightarrow> interface_equal m (At a x y) (At b x y) = Some True)"
    using imagesEqual_rows_total [OF p] by simp
  have "imagesEqual m a b = imagesEqual_rows m a b (Bounds a) (Y (Min_pt (Bounds a)))"
    using True by (simp add: imagesEqual_def)
  then show ?thesis unfolding r using True by simp
qed

lemma comparable_std:
  "(\<And>x y. \<exists>r g bl al. At a x y = RGBA r g bl al \<or> At a x y = NRGBA r g bl al)
     \<Longrightarrow> comparable_in m a b bnd"
  unfolding comparable_in_def
proof (intro allI impI)
  fix x y
  assume h: "\<And>x y. \<exists>r g bl al. At a x y = RGBA r g bl al \<or> At a x y = NRGBA r g bl al"
  from h [of x y] obtain r g bl al where "At a x y = RGBA r g bl al \<or> At a x y = NRGBA r g bl al"
    by blast
  then show "interface_equal m (At a x y) (At b x y) \<noteq> None"
    by (auto simp add: interface_equal_def)
qed

text \<open>
  \<^bold>\<open>C1\<close>. The claim asks for a match whenever the dimensions are equal and every
  pixel is equal channel for channel. The code does not deliver it: a 1 by 1 baseline
  whose pixel is the opaque red \<^verbatim>\<open>color.RGBA{255, 0, 0, 255}\<close> (what \<^verbatim>\<open>png.Decode\<close>
  returns for an opaque file) and a 1 by 1 capture whose pixel is the opaque red
  \<^verbatim>\<open>color.NRGBA{255, 0, 0, 255}\<close> have the same bounds and the same channels, yet
  \<^verbatim>\<open>imagesEqual\<close> returns false, because line 223 compares the two interface values.
\<close>

theorem imagesEqual_rgba_nrgba_mismatch:
  "Bounds (uniform_image (rect 0 0 1 1) (RGBA 255 0 0 255))
     = Bounds (uniform_image (rect 0 0 1 1) (NRGBA 255 0 0 255))
   \<and> color_RGBA no_other (At (uniform_image (rect 0 0 1 1) (RGBA 255 0 0 255)) 0 0)
     = color_RGBA no_other (At (uniform_image (rect 0 0 1 1) (NRGBA 255 0 0 255)) 0 0)
   \<and> imagesEqual no_other (uniform_image (rect 0 0 1 1) (RGBA 255 0 0 255))
        (uniform_image (rect 0 0 1 1) (NRGBA 255 0 0 255)) = Inr False"
proof -
  let ?a = "uniform_image (rect 0 0 1 1) (RGBA 255 0 0 255)"
  let ?b = "uniform_image (rect 0 0 1 1) (NRGBA 255 0 0 255)"
  have cmp: "comparable_in no_other ?a ?b (Bounds ?a)"
    by (rule comparable_std) (simp add: uniform_image_def)
  have ch: "color_RGBA no_other (At ?a 0 0) = color_RGBA no_other (At ?b 0 0)"
    by (simp add: uniform_image_def color_RGBA_def premul16_def widen16_def Let_def)
  have "point_In 0 0 (Bounds ?a)"
    by (simp add: uniform_image_def rect_def point_In_def)
  moreover have "interface_equal no_other (At ?a 0 0) (At ?b 0 0) \<noteq> Some True"
    by (simp add: uniform_image_def)
  ultimately have "\<not> (\<forall>x y. point_In x y (Bounds ?a)
                        \<longrightarrow> interface_equal no_other (At ?a x y) (At ?b x y) = Some True)"
    by blast
  then have "imagesEqual no_other ?a ?b = Inr False"
    unfolding imagesEqual_total [OF cmp] by simp
  then show ?thesis using ch by (simp add: uniform_image_def)
qed

section \<open>The diff image\<close>

lemma RGBA_Set_Bounds [simp]: "Bounds (RGBA_Set m p x y c) = Bounds p"
  by (simp add: RGBA_Set_def)

lemma rgbaModel_RGBA [simp]: "rgbaModel m (RGBA r g b a) = RGBA r g b a"
  by (simp add: rgbaModel_def)

lemma createDiffImage_row_total:
  assumes "\<forall>x'. x \<le> x' \<and> x' < maxX \<longrightarrow> interface_equal m (At e x' y) (At a x' y) \<noteq> None"
  shows "\<exists>d'. createDiffImage_row m ec e a y x maxX d = Inr d'
           \<and> Bounds d' = Bounds d
           \<and> (\<forall>x' y'. At d' x' y' =
                (if y' = y \<and> x \<le> x' \<and> x' < maxX \<and> point_In x' y' (Bounds d)
                 then diff_pixel m ec e a x' y' else At d x' y'))"
  using assms
proof (induction m ec e a y x maxX d rule: createDiffImage_row.induct)
  case (1 m ec e a y x maxX d)
  show ?case
  proof (cases "x < maxX")
    case False
    then show ?thesis by (auto simp add: createDiffImage_row.simps [of m ec e a y x maxX d])
  next
    case True
    then have "interface_equal m (At e x y) (At a x y) \<noteq> None" using "1.prems" by simp
    then obtain eq where eq: "interface_equal m (At e x y) (At a x y) = Some eq" by auto
    define d1 where "d1 = (if \<not> eq then RGBA_Set m d x y ec else RGBA_Set m d x y (At e x y))"
    have step: "createDiffImage_row m ec e a y x maxX d
                = createDiffImage_row m ec e a y (x + 1) maxX d1"
      using True eq
      by (simp add: createDiffImage_row.simps [of m ec e a y x maxX d] Let_def d1_def)
    have p: "\<forall>x'. x + 1 \<le> x' \<and> x' < maxX \<longrightarrow> interface_equal m (At e x' y) (At a x' y) \<noteq> None"
      using "1.prems" by simp
    have "\<exists>d'. createDiffImage_row m ec e a y (x + 1) maxX d1 = Inr d'
           \<and> Bounds d' = Bounds d1
           \<and> (\<forall>x' y'. At d' x' y' =
                (if y' = y \<and> x + 1 \<le> x' \<and> x' < maxX \<and> point_In x' y' (Bounds d1)
                 then diff_pixel m ec e a x' y' else At d1 x' y'))"
      unfolding d1_def by (rule "1.IH" [OF True refl refl eq p])
    then obtain d' where r: "createDiffImage_row m ec e a y (x + 1) maxX d1 = Inr d'"
      and b: "Bounds d' = Bounds d1"
      and at: "\<forall>x' y'. At d' x' y' =
                (if y' = y \<and> x + 1 \<le> x' \<and> x' < maxX \<and> point_In x' y' (Bounds d1)
                 then diff_pixel m ec e a x' y' else At d1 x' y')"
      by (elim exE conjE)
    have bd: "Bounds d1 = Bounds d" by (simp add: d1_def)
    have atd: "\<And>x' y'. At d1 x' y' = (if x' = x \<and> y' = y \<and> point_In x y (Bounds d)
                              then diff_pixel m ec e a x y else At d x' y')"
      using eq by (cases eq) (simp_all add: d1_def RGBA_Set_def diff_pixel_def)
    have "\<forall>x' y'. At d' x' y' =
                (if y' = y \<and> x \<le> x' \<and> x' < maxX \<and> point_In x' y' (Bounds d)
                 then diff_pixel m ec e a x' y' else At d x' y')"
    proof (intro allI)
      fix x' y'
      show "At d' x' y' =
                (if y' = y \<and> x \<le> x' \<and> x' < maxX \<and> point_In x' y' (Bounds d)
                 then diff_pixel m ec e a x' y' else At d x' y')"
        using at [rule_format, of x' y'] atd [of x' y'] True unfolding bd
        by (cases "x' = x") auto
    qed
    then show ?thesis unfolding step using r b bd by simp
  qed
qed

lemma createDiffImage_rows_total:
  assumes "\<forall>y' x'. y \<le> y' \<and> y' < Y (Max_pt bounds) \<and> X (Min_pt bounds) \<le> x' \<and> x' < X (Max_pt bounds)
             \<longrightarrow> interface_equal m (At e x' y') (At a x' y') \<noteq> None"
  shows "\<exists>d'. createDiffImage_rows m ec e a bounds y d = Inr d'
           \<and> Bounds d' = Bounds d
           \<and> (\<forall>x' y'. At d' x' y' =
                (if y \<le> y' \<and> y' < Y (Max_pt bounds) \<and> X (Min_pt bounds) \<le> x'
                    \<and> x' < X (Max_pt bounds) \<and> point_In x' y' (Bounds d)
                 then diff_pixel m ec e a x' y' else At d x' y'))"
  using assms
proof (induction m ec e a bounds y d rule: createDiffImage_rows.induct)
  case (1 m ec e a bounds y d)
  show ?case
  proof (cases "y < Y (Max_pt bounds)")
    case False
    then show ?thesis by (auto simp add: createDiffImage_rows.simps [of m ec e a bounds y d])
  next
    case True
    have rowp: "\<forall>x'. X (Min_pt bounds) \<le> x' \<and> x' < X (Max_pt bounds)
                  \<longrightarrow> interface_equal m (At e x' y) (At a x' y) \<noteq> None"
      using "1.prems" True by simp
    from createDiffImage_row_total [OF rowp, of ec d]
    obtain d1 where r1: "createDiffImage_row m ec e a y (X (Min_pt bounds)) (X (Max_pt bounds)) d = Inr d1"
      and b1: "Bounds d1 = Bounds d"
      and at1: "\<forall>x' y'. At d1 x' y' =
                (if y' = y \<and> X (Min_pt bounds) \<le> x' \<and> x' < X (Max_pt bounds) \<and> point_In x' y' (Bounds d)
                 then diff_pixel m ec e a x' y' else At d x' y')"
      by (elim exE conjE)
    have step: "createDiffImage_rows m ec e a bounds y d
                = createDiffImage_rows m ec e a bounds (y + 1) d1"
      using True r1 by (simp add: createDiffImage_rows.simps [of m ec e a bounds y d])
    have p: "\<forall>y' x'. y + 1 \<le> y' \<and> y' < Y (Max_pt bounds) \<and> X (Min_pt bounds) \<le> x'
               \<and> x' < X (Max_pt bounds) \<longrightarrow> interface_equal m (At e x' y') (At a x' y') \<noteq> None"
      using "1.prems" by simp
    from "1.IH" [OF True r1 p]
    obtain d' where r: "createDiffImage_rows m ec e a bounds (y + 1) d1 = Inr d'"
      and b: "Bounds d' = Bounds d1"
      and at: "\<forall>x' y'. At d' x' y' =
                (if y + 1 \<le> y' \<and> y' < Y (Max_pt bounds) \<and> X (Min_pt bounds) \<le> x'
                    \<and> x' < X (Max_pt bounds) \<and> point_In x' y' (Bounds d1)
                 then diff_pixel m ec e a x' y' else At d1 x' y')"
      by (elim exE conjE)
    have "\<forall>x' y'. At d' x' y' =
                (if y \<le> y' \<and> y' < Y (Max_pt bounds) \<and> X (Min_pt bounds) \<le> x'
                    \<and> x' < X (Max_pt bounds) \<and> point_In x' y' (Bounds d)
                 then diff_pixel m ec e a x' y' else At d x' y')"
    proof (intro allI)
      fix x' y'
      show "At d' x' y' =
                (if y \<le> y' \<and> y' < Y (Max_pt bounds) \<and> X (Min_pt bounds) \<le> x'
                    \<and> x' < X (Max_pt bounds) \<and> point_In x' y' (Bounds d)
                 then diff_pixel m ec e a x' y' else At d x' y')"
        using at [rule_format, of x' y'] at1 [rule_format, of x' y'] True unfolding b1
        by (cases "y' = y") auto
    qed
    then show ?thesis unfolding step using r b b1 by simp
  qed
qed

lemma createDiffImage_Some:
  assumes "Bounds expected = Bounds actual"
    and "pixelBufferLength_ok (Bounds expected)"
    and "mk (4 * Dx (Bounds expected) * Dy (Bounds expected))"
    and "comparable_in m expected actual (Bounds expected)"
  shows "\<exists>d. createDiffImage mk m ec expected actual = Inr (Some d)
           \<and> Bounds d = Bounds actual
           \<and> (\<forall>x y. point_In x y (Bounds actual) \<longrightarrow> At d x y = diff_pixel m ec expected actual x y)"
proof -
  let ?b = "Bounds expected"
  let ?d0 = "\<lparr>Bounds = ?b, At = (\<lambda>x y. RGBA 0 0 0 0)\<rparr> :: 'a image"
  have p: "\<forall>y' x'. Y (Min_pt ?b) \<le> y' \<and> y' < Y (Max_pt ?b) \<and> X (Min_pt ?b) \<le> x' \<and> x' < X (Max_pt ?b)
             \<longrightarrow> interface_equal m (At expected x' y') (At actual x' y') \<noteq> None"
    using assms(4) by (simp add: comparable_in_def point_In_def)
  from createDiffImage_rows_total [OF p, of ec ?d0]
  obtain d where r: "createDiffImage_rows m ec expected actual ?b (Y (Min_pt ?b)) ?d0 = Inr d"
    and b: "Bounds d = Bounds ?d0"
    and at: "\<forall>x' y'. At d x' y' =
                (if Y (Min_pt ?b) \<le> y' \<and> y' < Y (Max_pt ?b) \<and> X (Min_pt ?b) \<le> x'
                    \<and> x' < X (Max_pt ?b) \<and> point_In x' y' (Bounds ?d0)
                 then diff_pixel m ec expected actual x' y' else At ?d0 x' y')"
    by (elim exE conjE)
  have c: "createDiffImage mk m ec expected actual = Inr (Some d)"
    using assms(1,2,3) r by (simp add: createDiffImage_def NewRGBA_def Let_def)
  have bd: "Bounds d = Bounds actual" using b assms(1) by simp
  have px: "\<forall>x y. point_In x y (Bounds actual) \<longrightarrow> At d x y = diff_pixel m ec expected actual x y"
  proof (intro allI impI)
    fix x y assume "point_In x y (Bounds actual)"
    then have "point_In x y ?b" using assms(1) by simp
    then show "At d x y = diff_pixel m ec expected actual x y"
      using at [rule_format, of x y] by (simp add: point_In_def)
  qed
  show ?thesis using c bd px by blast
qed

lemma createDiffImage_bounds_differ:
  "Bounds expected \<noteq> Bounds actual \<Longrightarrow> createDiffImage mk m ec expected actual = Inr None"
  by (simp add: createDiffImage_def Let_def)

lemma createDiffImage_Some_bounds:
  "createDiffImage mk m ec expected actual = Inr (Some d) \<Longrightarrow> Bounds expected = Bounds actual"
  by (auto simp add: createDiffImage_def Let_def split: if_splits sum.splits)

text \<open>
  \<^bold>\<open>C2\<close> (as the code has it). When the two images have the same bounds rectangle,
  \<^verbatim>\<open>image.NewRGBA\<close> can allocate it and no colour comparison panics,
  \<^verbatim>\<open>createDiffImage\<close> returns a new image with those bounds. In it every position whose
  source colours compare unequal and differ in their channels holds the marker colour,
  and every position whose source colours compare equal holds that colour, which is the
  candidate's own when the two pixels are the same value; both are stored as converted
  to \<^verbatim>\<open>color.RGBA\<close> by the diff image's \<^verbatim>\<open>Set\<close>, so a candidate colour that already is
  a \<^verbatim>\<open>color.RGBA\<close> is stored unchanged. Nothing is said about positions whose colours
  have the same channels in different colour types. When the bounds differ, in
  particular when the dimensions differ, no diff image is produced (\<^verbatim>\<open>nil\<close>).
\<close>

theorem createDiffImage_marks_differences:
  "(Bounds expected = Bounds actual \<and> pixelBufferLength_ok (Bounds expected)
      \<and> mk (4 * Dx (Bounds expected) * Dy (Bounds expected))
      \<and> comparable_in m expected actual (Bounds expected) \<longrightarrow>
      (\<exists>d. createDiffImage mk m ec expected actual = Inr (Some d)
          \<and> Bounds d = Bounds actual
          \<and> (\<forall>x y. point_In x y (Bounds actual) \<longrightarrow>
                (interface_equal m (At expected x y) (At actual x y) = Some False
                   \<and> color_RGBA m (At expected x y) \<noteq> color_RGBA m (At actual x y)
                   \<longrightarrow> At d x y = rgbaModel m ec)
              \<and> (interface_equal m (At expected x y) (At actual x y) = Some True
                   \<longrightarrow> At d x y = rgbaModel m (At expected x y))
              \<and> (interface_equal m (At expected x y) (At actual x y) = Some True
                   \<and> At expected x y = At actual x y
                   \<longrightarrow> At d x y = rgbaModel m (At actual x y))
              \<and> (At expected x y = At actual x y \<and> At actual x y = RGBA r g b al
                   \<longrightarrow> At d x y = At actual x y))))
   \<and> (Bounds expected \<noteq> Bounds actual
        \<longrightarrow> createDiffImage mk m ec expected actual = Inr None)
   \<and> (Dx (Bounds expected) \<noteq> Dx (Bounds actual) \<or> Dy (Bounds expected) \<noteq> Dy (Bounds actual)
        \<longrightarrow> createDiffImage mk m ec expected actual = Inr None)"
proof (intro conjI impI)
  assume h: "Bounds expected = Bounds actual \<and> pixelBufferLength_ok (Bounds expected)
      \<and> mk (4 * Dx (Bounds expected) * Dy (Bounds expected))
      \<and> comparable_in m expected actual (Bounds expected)"
  from h have h1: "Bounds expected = Bounds actual" by blast
  from h have h2: "pixelBufferLength_ok (Bounds expected)" by blast
  from h have h3: "mk (4 * Dx (Bounds expected) * Dy (Bounds expected))" by blast
  from h have h4: "comparable_in m expected actual (Bounds expected)" by blast
  from createDiffImage_Some [where mk = mk and ec = ec, OF h1 h2 h3 h4]
  obtain d where d: "createDiffImage mk m ec expected actual = Inr (Some d)"
    and bd: "Bounds d = Bounds actual"
    and px: "\<forall>x y. point_In x y (Bounds actual) \<longrightarrow> At d x y = diff_pixel m ec expected actual x y"
    by (elim exE conjE)
  have body: "\<forall>x y. point_In x y (Bounds actual) \<longrightarrow>
                (interface_equal m (At expected x y) (At actual x y) = Some False
                   \<and> color_RGBA m (At expected x y) \<noteq> color_RGBA m (At actual x y)
                   \<longrightarrow> At d x y = rgbaModel m ec)
              \<and> (interface_equal m (At expected x y) (At actual x y) = Some True
                   \<longrightarrow> At d x y = rgbaModel m (At expected x y))
              \<and> (interface_equal m (At expected x y) (At actual x y) = Some True
                   \<and> At expected x y = At actual x y
                   \<longrightarrow> At d x y = rgbaModel m (At actual x y))
              \<and> (At expected x y = At actual x y \<and> At actual x y = RGBA r g b al
                   \<longrightarrow> At d x y = At actual x y)"
  proof (intro allI impI)
    fix x y assume "point_In x y (Bounds actual)"
    then have e: "At d x y = diff_pixel m ec expected actual x y" using px by blast
    show "(interface_equal m (At expected x y) (At actual x y) = Some False
                   \<and> color_RGBA m (At expected x y) \<noteq> color_RGBA m (At actual x y)
                   \<longrightarrow> At d x y = rgbaModel m ec)
              \<and> (interface_equal m (At expected x y) (At actual x y) = Some True
                   \<longrightarrow> At d x y = rgbaModel m (At expected x y))
              \<and> (interface_equal m (At expected x y) (At actual x y) = Some True
                   \<and> At expected x y = At actual x y
                   \<longrightarrow> At d x y = rgbaModel m (At actual x y))
              \<and> (At expected x y = At actual x y \<and> At actual x y = RGBA r g b al
                   \<longrightarrow> At d x y = At actual x y)"
      unfolding e by (auto simp add: diff_pixel_def)
  qed
  show "\<exists>d. createDiffImage mk m ec expected actual = Inr (Some d)
          \<and> Bounds d = Bounds actual
          \<and> (\<forall>x y. point_In x y (Bounds actual) \<longrightarrow>
                (interface_equal m (At expected x y) (At actual x y) = Some False
                   \<and> color_RGBA m (At expected x y) \<noteq> color_RGBA m (At actual x y)
                   \<longrightarrow> At d x y = rgbaModel m ec)
              \<and> (interface_equal m (At expected x y) (At actual x y) = Some True
                   \<longrightarrow> At d x y = rgbaModel m (At expected x y))
              \<and> (interface_equal m (At expected x y) (At actual x y) = Some True
                   \<and> At expected x y = At actual x y
                   \<longrightarrow> At d x y = rgbaModel m (At actual x y))
              \<and> (At expected x y = At actual x y \<and> At actual x y = RGBA r g b al
                   \<longrightarrow> At d x y = At actual x y))"
    by (rule exI [of _ d]) (intro conjI d bd body)
next
  assume "Bounds expected \<noteq> Bounds actual"
  then show "createDiffImage mk m ec expected actual = Inr None"
    by (rule createDiffImage_bounds_differ)
next
  assume "Dx (Bounds expected) \<noteq> Dx (Bounds actual) \<or> Dy (Bounds expected) \<noteq> Dy (Bounds actual)"
  then have "Bounds expected \<noteq> Bounds actual" by auto
  then show "createDiffImage mk m ec expected actual = Inr None"
    by (rule createDiffImage_bounds_differ)
qed

text \<open>
  A worked instance: two 2 by 1 images that agree at (0, 0) and differ at (1, 0), with
  the marker \<^verbatim>\<open>color.NRGBA{0xf4, 0x43, 0x36, 0xff}\<close>. The diff keeps the candidate's
  pixel at (0, 0) and holds the marker, as a \<^verbatim>\<open>color.RGBA\<close>, at (1, 0); against an
  image of another width no diff is produced.
\<close>

theorem createDiffImage_marks_differences_witness:
  "Bounds (two_pixel (RGBA 1 1 1 255) (RGBA 2 2 2 255))
     = Bounds (two_pixel (RGBA 1 1 1 255) (RGBA 9 9 9 255))
   \<and> pixelBufferLength_ok (Bounds (two_pixel (RGBA 1 1 1 255) (RGBA 2 2 2 255)))
   \<and> make_below (2 ^ 47) (4 * Dx (Bounds (two_pixel (RGBA 1 1 1 255) (RGBA 2 2 2 255)))
                             * Dy (Bounds (two_pixel (RGBA 1 1 1 255) (RGBA 2 2 2 255))))
   \<and> diff_at (make_below (2 ^ 47)) no_other (NRGBA 0xf4 0x43 0x36 0xff)
        (two_pixel (RGBA 1 1 1 255) (RGBA 2 2 2 255))
        (two_pixel (RGBA 1 1 1 255) (RGBA 9 9 9 255)) 0 0 = Some (RGBA 1 1 1 255)
   \<and> diff_at (make_below (2 ^ 47)) no_other (NRGBA 0xf4 0x43 0x36 0xff)
        (two_pixel (RGBA 1 1 1 255) (RGBA 2 2 2 255))
        (two_pixel (RGBA 1 1 1 255) (RGBA 9 9 9 255)) 1 0 = Some (RGBA 0xf4 0x43 0x36 0xff)
   \<and> createDiffImage (make_below (2 ^ 47)) no_other (NRGBA 0xf4 0x43 0x36 0xff)
        (two_pixel (RGBA 1 1 1 255) (RGBA 2 2 2 255))
        (uniform_image (rect 0 0 3 1) (RGBA 1 1 1 255)) = Inr None"
proof -
  let ?e = "two_pixel (RGBA 1 1 1 255) (RGBA 2 2 2 255)"
  let ?a = "two_pixel (RGBA 1 1 1 255) (RGBA 9 9 9 255)"
  let ?w = "uniform_image (rect 0 0 3 1) (RGBA 1 1 1 255)"
  let ?mk = "NRGBA 0xf4 0x43 0x36 0xff :: unit color"
  let ?al = "make_below (2 ^ 47)"
  have b: "Bounds ?e = Bounds ?a" by (simp add: two_pixel_def)
  have ok: "pixelBufferLength_ok (Bounds ?e)"
    by (simp add: two_pixel_def rect_def pixelBufferLength_ok_def Dx_def Dy_def int64_def)
  have al: "?al (4 * Dx (Bounds ?e) * Dy (Bounds ?e))"
    by (simp add: two_pixel_def rect_def make_below_def Dx_def Dy_def int64_def)
  have cmp: "comparable_in no_other ?e ?a (Bounds ?e)"
    by (rule comparable_std) (simp add: two_pixel_def)
  have mk: "rgbaModel no_other ?mk = RGBA 0xf4 0x43 0x36 0xff"
    by (simp add: rgbaModel_def color_RGBA_def premul16_def widen16_def Let_def)
  have hyp: "Bounds ?e = Bounds ?a \<and> pixelBufferLength_ok (Bounds ?e)
      \<and> ?al (4 * Dx (Bounds ?e) * Dy (Bounds ?e)) \<and> comparable_in no_other ?e ?a (Bounds ?e)"
    using b ok al cmp by simp
  from createDiffImage_marks_differences [of ?e ?a ?al no_other ?mk 1 1 1 255,
          THEN conjunct1, rule_format, OF hyp]
  obtain d where d: "createDiffImage ?al no_other ?mk ?e ?a = Inr (Some d)"
    and bd: "Bounds d = Bounds ?a"
    and px: "\<forall>x y. point_In x y (Bounds ?a) \<longrightarrow>
                (interface_equal no_other (At ?e x y) (At ?a x y) = Some False
                   \<and> color_RGBA no_other (At ?e x y) \<noteq> color_RGBA no_other (At ?a x y)
                   \<longrightarrow> At d x y = rgbaModel no_other ?mk)
              \<and> (interface_equal no_other (At ?e x y) (At ?a x y) = Some True
                   \<longrightarrow> At d x y = rgbaModel no_other (At ?e x y))
              \<and> (interface_equal no_other (At ?e x y) (At ?a x y) = Some True
                   \<and> At ?e x y = At ?a x y
                   \<longrightarrow> At d x y = rgbaModel no_other (At ?a x y))
              \<and> (At ?e x y = At ?a x y \<and> At ?a x y = RGBA 1 1 1 255 \<longrightarrow> At d x y = At ?a x y)"
    by (elim exE conjE)
  have in0: "point_In 0 0 (Bounds ?a)" and in1: "point_In 1 0 (Bounds ?a)"
    by (simp_all add: two_pixel_def rect_def point_In_def)
  have p0: "At d 0 0 = RGBA 1 1 1 255"
    using px [rule_format, OF in0] by (simp add: two_pixel_def)
  have ne: "color_RGBA no_other (RGBA 2 2 2 255) \<noteq> color_RGBA no_other (RGBA 9 9 9 255 :: unit color)"
    by (simp add: color_RGBA_def widen16_def Let_def)
  have p1: "At d 1 0 = RGBA 0xf4 0x43 0x36 0xff"
    using px [rule_format, OF in1] mk ne by (simp add: two_pixel_def)
  have w: "createDiffImage ?al no_other ?mk ?e ?w = Inr None"
    using createDiffImage_marks_differences [of ?e ?w ?al no_other ?mk 1 1 1 255]
    by (simp add: two_pixel_def uniform_image_def rect_def)
  show ?thesis using b ok al d p0 p1 w by (simp add: diff_at_def)
qed

text \<open>
  The claim as worded fails twice. Two images of equal dimensions at different origins
  yield no diff image; and a matching pixel of a \<^verbatim>\<open>color.NRGBA\<close> candidate is stored
  converted: \<^verbatim>\<open>NRGBA{128, 0, 0, 1}\<close> becomes \<^verbatim>\<open>RGBA{0, 0, 0, 1}\<close>.
\<close>

theorem createDiffImage_equal_dimensions_counterexample:
  "Dx (Bounds (uniform_image (rect 0 0 1 1) (RGBA 0 0 0 0)))
     = Dx (Bounds (uniform_image (rect 1 1 2 2) (RGBA 0 0 0 0)))
   \<and> Dy (Bounds (uniform_image (rect 0 0 1 1) (RGBA 0 0 0 0)))
     = Dy (Bounds (uniform_image (rect 1 1 2 2) (RGBA 0 0 0 0)))
   \<and> createDiffImage (make_below (2 ^ 47)) no_other (NRGBA 0xf4 0x43 0x36 0xff)
        (uniform_image (rect 0 0 1 1) (RGBA 0 0 0 0))
        (uniform_image (rect 1 1 2 2) (RGBA 0 0 0 0)) = Inr None
   \<and> At (uniform_image (rect 0 0 1 1) (NRGBA 128 0 0 1)) 0 0 = NRGBA 128 0 0 1
   \<and> diff_at (make_below (2 ^ 47)) no_other (NRGBA 0xf4 0x43 0x36 0xff)
        (uniform_image (rect 0 0 1 1) (NRGBA 128 0 0 1))
        (uniform_image (rect 0 0 1 1) (NRGBA 128 0 0 1)) 0 0 = Some (RGBA 0 0 0 1)"
proof -
  let ?n = "uniform_image (rect 0 0 1 1) (NRGBA 128 0 0 1)"
  let ?mk = "NRGBA 0xf4 0x43 0x36 0xff :: unit color"
  let ?al = "make_below (2 ^ 47)"
  have conv: "rgbaModel no_other (NRGBA 128 0 0 1) = RGBA 0 0 0 1"
    by (simp add: rgbaModel_def color_RGBA_def premul16_def widen16_def Let_def)
  have ok: "pixelBufferLength_ok (Bounds ?n)"
    by (simp add: uniform_image_def rect_def pixelBufferLength_ok_def Dx_def Dy_def int64_def)
  have al: "?al (4 * Dx (Bounds ?n) * Dy (Bounds ?n))"
    by (simp add: uniform_image_def rect_def make_below_def Dx_def Dy_def int64_def)
  have cmp: "comparable_in no_other ?n ?n (Bounds ?n)"
    by (rule comparable_std) (simp add: uniform_image_def)
  from createDiffImage_Some [where mk = ?al and ec = ?mk and expected = ?n and actual = ?n,
                             OF refl ok al cmp]
  obtain d where d: "createDiffImage ?al no_other ?mk ?n ?n = Inr (Some d)"
    and px: "\<forall>x y. point_In x y (Bounds ?n) \<longrightarrow> At d x y = diff_pixel no_other ?mk ?n ?n x y"
    by (elim exE conjE)
  have "point_In 0 0 (Bounds ?n)" by (simp add: uniform_image_def rect_def point_In_def)
  then have "At d 0 0 = RGBA 0 0 0 1"
    using px conv by (simp add: diff_pixel_def uniform_image_def)
  then have last: "diff_at ?al no_other ?mk ?n ?n 0 0 = Some (RGBA 0 0 0 1)"
    using d by (simp add: diff_at_def)
  show ?thesis
    using last
    by (simp add: uniform_image_def rect_def Dx_def Dy_def int64_def createDiffImage_def Let_def)
qed

section \<open>File-name sanitization\<close>

lemma runes_us [simp]: "runes ''_'' = [0x5F]"
  by (simp add: runes_def)

lemma class_lower_ascii_ToLower [simp]: "class_lower (ascii_ToLower r) \<longleftrightarrow> class_mixed r"
  by (auto simp add: class_lower_def class_mixed_def ascii_ToLower_def)

lemma ascii_ToLower_us [simp]: "ascii_ToLower r = 0x5F \<longleftrightarrow> r = 0x5F"
  by (auto simp add: ascii_ToLower_def)

lemma map_replace_runs:
  "map ascii_ToLower (replace_runs class_mixed s)
     = replace_runs class_lower (map ascii_ToLower s)"
proof (induction class_mixed s rule: replace_runs.induct)
  case 1
  show ?case by simp
next
  case (2 c cs)
  have dw: "dropWhile (\<lambda>r. \<not> class_lower r) (map ascii_ToLower cs)
            = map ascii_ToLower (dropWhile (\<lambda>r. \<not> class_mixed r) cs)"
    by (simp add: dropWhile_map comp_def)
  show ?case
  proof (cases "class_mixed c")
    case True
    then show ?thesis using 2 by simp
  next
    case False
    then have "\<not> class_lower (ascii_ToLower c)" by simp
    then show ?thesis using False 2 dw by simp
  qed
qed

lemma map_strings_Trim:
  "map ascii_ToLower (strings_Trim s [0x5F]) = strings_Trim (map ascii_ToLower s) [0x5F]"
  by (simp add: strings_Trim_def rev_map dropWhile_map comp_def)

lemma replace_runs_in_class: "r \<in> set (replace_runs class_mixed s) \<Longrightarrow> class_mixed r"
proof (induction class_mixed s rule: replace_runs.induct)
  case 1
  then show ?case by simp
next
  case (2 c cs)
  then show ?case by (auto simp add: class_mixed_def split: if_splits)
qed

lemma set_strings_Trim: "set (strings_Trim s cs) \<subseteq> set s"
  unfolding strings_Trim_def
  by (metis (no_types, lifting) set_dropWhileD set_rev subsetI)

lemma unicode_ToLower_class: "class_mixed r \<Longrightarrow> unicode_ToLower r = ascii_ToLower r"
  by (auto simp add: class_mixed_def unicode_ToLower_def ascii_ToLower_def)

lemma sanitizeFilename_eq_sanitize_ascii:
  "sanitizeFilename name = sanitize_ascii name"
proof -
  let ?t = "strings_Trim (replace_runs class_mixed name) [0x5F]"
  have "\<forall>r \<in> set ?t. class_mixed r"
    using set_strings_Trim replace_runs_in_class by blast
  then have "strings_ToLower ?t = map ascii_ToLower ?t"
    by (simp add: strings_ToLower_def unicode_ToLower_class)
  also have "\<dots> = strings_Trim (replace_runs class_lower (map ascii_ToLower name)) [0x5F]"
    by (simp add: map_strings_Trim map_replace_runs)
  finally show ?thesis
    by (simp add: sanitizeFilename_def sanitize_ascii_def Let_def)
qed

lemma replace_runs_id: "\<forall>r \<in> set s. cls r \<Longrightarrow> replace_runs cls s = s"
  by (induction s) simp_all

lemma strings_Trim_front:
  "strings_Trim s cs \<noteq> [] \<Longrightarrow> hd (strings_Trim s cs) \<notin> set cs"
proof -
  assume ne: "strings_Trim s cs \<noteq> []"
  let ?P = "\<lambda>r. r \<in> set cs"
  let ?u = "dropWhile ?P s"
  have split: "?u = strings_Trim s cs @ rev (takeWhile ?P (rev ?u))"
  proof -
    have "rev (takeWhile ?P (rev ?u) @ dropWhile ?P (rev ?u)) = ?u"
      by (simp only: takeWhile_dropWhile_id rev_rev_ident)
    then show ?thesis by (simp only: rev_append strings_Trim_def)
  qed
  then have "hd ?u = hd (strings_Trim s cs)" using ne by (metis hd_append2)
  moreover have "?u \<noteq> []" using split ne by (metis append_is_Nil_conv)
  then have "\<not> ?P (hd ?u)" by (rule hd_dropWhile)
  ultimately show ?thesis by simp
qed

lemma strings_Trim_back:
  "strings_Trim s cs \<noteq> [] \<Longrightarrow> last (strings_Trim s cs) \<notin> set cs"
proof -
  assume ne: "strings_Trim s cs \<noteq> []"
  let ?P = "\<lambda>r. r \<in> set cs"
  let ?v = "dropWhile ?P (rev (dropWhile ?P s))"
  have "?v \<noteq> []" using ne by (simp add: strings_Trim_def)
  then have "\<not> ?P (hd ?v)" by (rule hd_dropWhile)
  moreover have "last (strings_Trim s cs) = hd ?v"
    using \<open>?v \<noteq> []\<close> by (simp add: strings_Trim_def last_rev)
  ultimately show ?thesis by simp
qed

lemma dropWhile_id: "xs = [] \<or> \<not> P (hd xs) \<Longrightarrow> dropWhile P xs = xs"
  by (cases xs) auto

lemma strings_Trim_id:
  assumes "t = [] \<or> (hd t \<notin> set cs \<and> last t \<notin> set cs)"
  shows "strings_Trim t cs = t"
proof (cases "t = []")
  case True
  then show ?thesis by (simp add: strings_Trim_def)
next
  case False
  with assms have h: "hd t \<notin> set cs" and l: "last t \<notin> set cs" by auto
  have 1: "dropWhile (\<lambda>r. r \<in> set cs) t = t" using h by (intro dropWhile_id) simp
  have "hd (rev t) \<notin> set cs" using l False by (simp add: hd_rev)
  then have 2: "dropWhile (\<lambda>r. r \<in> set cs) (rev t) = rev t" by (intro dropWhile_id) simp
  show ?thesis by (simp add: strings_Trim_def 1 2)
qed

lemma strings_Trim_idem: "strings_Trim (strings_Trim s cs) cs = strings_Trim s cs"
  by (rule strings_Trim_id) (use strings_Trim_front strings_Trim_back in blast)

lemma sanitize_ascii_class: "r \<in> set (sanitize_ascii s) \<Longrightarrow> class_lower r"
proof -
  assume "r \<in> set (sanitize_ascii s)"
  then have "r \<in> set (sanitizeFilename s)"
    by (simp add: sanitizeFilename_eq_sanitize_ascii)
  then obtain q where q: "q \<in> set (strings_Trim (replace_runs class_mixed s) [0x5F])"
      and r: "r = unicode_ToLower q"
    by (auto simp add: sanitizeFilename_def strings_ToLower_def Let_def)
  then have "class_mixed q" using set_strings_Trim replace_runs_in_class by blast
  then show "class_lower r" using r by (simp add: unicode_ToLower_class)
qed

lemma class_lower_fixed:
  "class_lower r \<Longrightarrow> class_mixed r \<and> unicode_ToLower r = r"
  by (auto simp add: class_lower_def class_mixed_def unicode_ToLower_def)

lemma sanitizeFilename_example:
  "sanitizeFilename (runes ''  __Hello  World!_'') = runes ''hello_world''"
  by (simp add: sanitizeFilename_def strings_Trim_def strings_ToLower_def
        unicode_ToLower_def class_mixed_def Let_def runes_def)

text \<open>
  \<^bold>\<open>C4\<close> (as the code has it). \<^verbatim>\<open>sanitizeFilename\<close> is a total function of the name
  and equals: lower-case the ASCII letters of the name (every other character is left
  as it is), replace every run of characters outside \<^verbatim>\<open>[a-z0-9_-]\<close> by a single
  underscore, and trim leading and trailing underscores.
\<close>

theorem sanitizeFilename_ascii_lower_replace_trim:
  "sanitizeFilename name = sanitize_ascii name"
  by (rule sanitizeFilename_eq_sanitize_ascii)

text \<open>
  With the lower-casing of \<^verbatim>\<open>strings.ToLower\<close> the two orders differ: the name that
  consists of the Kelvin sign U+212A is sanitized to the empty string by the code (the
  sign is outside \<^verbatim>\<open>[a-zA-Z0-9_-]\<close> and is replaced before lower-casing), while
  lower-casing first turns it into \<^verbatim>\<open>k\<close>.
\<close>

theorem sanitizeFilename_kelvin_counterexample:
  "sanitizeFilename [0x212A] = [] \<and> sanitize_spec [0x212A] = runes ''k''"
  by (simp add: sanitizeFilename_def sanitize_spec_def strings_Trim_def strings_ToLower_def
        unicode_ToLower_def class_mixed_def class_lower_def Let_def runes_def)

text \<open>
  \<^bold>\<open>C9\<close>. Sanitization is idempotent; being a function of the name alone it is
  deterministic, so the baseline path derived from a name is the same on every run.
\<close>

theorem sanitizeFilename_idempotent:
  "sanitizeFilename (sanitizeFilename s) = sanitizeFilename s"
proof -
  let ?o = "sanitizeFilename s"
  have cls: "\<forall>r \<in> set ?o. class_lower r"
    using sanitize_ascii_class by (simp add: sanitizeFilename_eq_sanitize_ascii)
  then have mixed: "\<forall>r \<in> set ?o. class_mixed r" and low: "map unicode_ToLower ?o = ?o"
    using class_lower_fixed by (auto simp add: map_idI)
  have rep: "replace_runs class_mixed ?o = ?o" using mixed by (rule replace_runs_id)
  have "?o = strings_Trim (replace_runs class_lower (map ascii_ToLower s)) [0x5F]"
    by (simp add: sanitizeFilename_eq_sanitize_ascii sanitize_ascii_def)
  then have trim: "strings_Trim ?o [0x5F] = ?o"
    by (metis strings_Trim_idem)
  show ?thesis
    by (simp add: sanitizeFilename_def [of ?o] Let_def rep trim strings_ToLower_def low)
qed

section \<open>The snapshot controller\<close>

lemma Join_same_dir [simp]:
  "filepath_Join d f = filepath_Join d g \<longleftrightarrow> f = g"
  by (simp add: filepath_Join_def)

lemma tempPath_neq_diffPath: "tempPath v name \<noteq> diffPath v name"
  by (simp add: tempPath_def diffPath_def runes_def)

lemma tempPath_neq_actualPath: "tempPath v name \<noteq> actualPath v name"
  by (simp add: tempPath_def actualPath_def runes_def)

lemma actualPath_neq_diffPath: "actualPath v name \<noteq> diffPath v name"
  by (simp add: actualPath_def diffPath_def runes_def)

lemma prefixed_neq_plain:
  assumes "pre \<noteq> []" and "last pre \<noteq> 0x2F"
  shows "filepath_Join d (pre @ f) \<noteq> filepath_Join d' f"
proof
  assume "filepath_Join d (pre @ f) = filepath_Join d' f"
  then have "(d @ [0x2F] @ pre) @ f = (d' @ [0x2F]) @ f"
    by (simp add: filepath_Join_def runes_def)
  then have "d @ [0x2F] @ pre = d' @ [0x2F]" by (simp only: append_same_eq)
  then have "last (d @ [0x2F] @ pre) = last (d' @ [0x2F])" by simp
  then show False using assms by simp
qed

lemma tempPath_neq_snapshotPath: "tempPath v name \<noteq> snapshotPath v name"
  unfolding tempPath_def snapshotPath_def
  by (rule prefixed_neq_plain) (simp_all add: runes_def)

lemma saveImage_files_other:
  "p \<noteq> path \<Longrightarrow> files (fst (saveImage io fs path img)) p = files fs p"
  by (simp add: saveImage_def)

lemma saveImage_writes:
  "writes (fst (saveImage io fs path img)) = writes fs @ (if create_ok io path then [path] else [])"
  by (simp add: saveImage_def)

lemma saveImage_files_ok:
  "create_ok io path \<Longrightarrow> encode_ok io path \<Longrightarrow>
     files (fst (saveImage io fs path img)) path = Some (Encoded img)"
  by (simp add: saveImage_def)

lemma Snapshot_missing:
  assumes st: "os_Stat io (fsys s) (snapshotPath v name) = Stat_not_exist"
  shows "Snapshot m ec v False io name img s =
     (let s1 = T_Errorf s (Errorf_missing (snapshotPath v name)) in
      if mkdirall_ok io (screenshotDir v)
      then T_Logf (s1\<lparr>fsys := fst (saveImage io (fsys s1) (tempPath v name) img)\<rparr>)
             (Logf_actual (tempPath v name))
      else s1)"
  using st by (simp add: Snapshot_def)

lemma New_dot:
  "snapshotDir (New (runes ''.'')) = runes ''testdata/snapshots''"
  "screenshotDir (New (runes ''.'')) = runes ''testdata/screenshots''"
  by (simp_all add: New_def filepath_Join_def runes_def Let_def)

lemma sanitize_foo: "sanitizeFilename (runes ''foo'') = runes ''foo''"
  by (simp add: sanitizeFilename_def strings_Trim_def strings_ToLower_def
        unicode_ToLower_def class_mixed_def Let_def runes_def)

lemma paths_foo:
  "snapshotPath (New (runes ''.'')) (runes ''foo'') = runes ''testdata/snapshots/foo.png''"
  "tempPath (New (runes ''.'')) (runes ''foo'') = runes ''testdata/screenshots/failed_foo.png''"
  "actualPath (New (runes ''.'')) (runes ''foo'') = runes ''testdata/screenshots/actual_foo.png''"
  "diffPath (New (runes ''.'')) (runes ''foo'') = runes ''testdata/screenshots/diff_foo.png''"
  by (simp_all add: snapshotPath_def tempPath_def actualPath_def diffPath_def New_dot
        snapshot_filename_def sanitize_foo filepath_Join_def)
     (simp_all add: runes_def)

lemma stat_empty:
  "os_Stat io_all_ok (fsys (new_run empty_filesys)) p = Stat_not_exist"
  by (simp add: os_Stat_def io_all_ok_def new_run_def empty_filesys_def)

text \<open>
  \<^bold>\<open>C3\<close> (as the code has it). In verify mode, when the derived baseline path does
  not exist, the run reports the missing snapshot and marks the test failed; the only
  file it writes is \<^verbatim>\<open>failed_<name>.png\<close> in the screenshots directory, holding the
  captured image when the directory and the file can be written; every other path, in
  particular the baseline slot, \<^verbatim>\<open>actual_<name>.png\<close> and \<^verbatim>\<open>diff_<name>.png\<close>, is left
  as it was.
\<close>

theorem Snapshot_missing_baseline:
  assumes "os_Stat io (fsys s) (snapshotPath v name) = Stat_not_exist"
  shows "failed (Snapshot m ec v False io name img s)
       \<and> Errorf_missing (snapshotPath v name) \<in> set (log (Snapshot m ec v False io name img s))
       \<and> writes (fsys (Snapshot m ec v False io name img s))
           = writes (fsys s) @
             (if mkdirall_ok io (screenshotDir v) \<and> create_ok io (tempPath v name)
              then [tempPath v name] else [])
       \<and> (mkdirall_ok io (screenshotDir v) \<and> create_ok io (tempPath v name)
            \<and> encode_ok io (tempPath v name)
          \<longrightarrow> files (fsys (Snapshot m ec v False io name img s)) (tempPath v name)
                = Some (Encoded img))
       \<and> (\<forall>p. p \<noteq> tempPath v name
            \<longrightarrow> files (fsys (Snapshot m ec v False io name img s)) p = files (fsys s) p)
       \<and> tempPath v name \<noteq> snapshotPath v name
       \<and> tempPath v name \<noteq> diffPath v name
       \<and> tempPath v name \<noteq> actualPath v name"
  unfolding Snapshot_missing [OF assms]
  by (simp add: Let_def T_Errorf_def T_Logf_def saveImage_writes saveImage_files_ok
        saveImage_files_other tempPath_neq_snapshotPath tempPath_neq_diffPath
        tempPath_neq_actualPath)

text \<open>
  Scenario 1 of the specification, run on an empty file system with the case name
  \<^verbatim>\<open>foo\<close>.
\<close>

theorem Snapshot_missing_baseline_witness:
  "os_Stat io_all_ok (fsys (new_run empty_filesys))
      (snapshotPath (New (runes ''.'')) (runes ''foo'')) = Stat_not_exist
   \<and> failed (Snapshot no_other marker (New (runes ''.'')) False io_all_ok (runes ''foo'')
               black_pixel (new_run empty_filesys))
   \<and> writes (fsys (Snapshot no_other marker (New (runes ''.'')) False io_all_ok (runes ''foo'')
               black_pixel (new_run empty_filesys)))
       = [runes ''testdata/screenshots/failed_foo.png'']
   \<and> files (fsys (Snapshot no_other marker (New (runes ''.'')) False io_all_ok (runes ''foo'')
               black_pixel (new_run empty_filesys)))
         (runes ''testdata/screenshots/diff_foo.png'') = None"
proof -
  let ?v = "New (runes ''.'')"
  let ?s = "new_run empty_filesys :: unit tstate"
  have st: "os_Stat io_all_ok (fsys ?s) (snapshotPath ?v (runes ''foo'')) = Stat_not_exist"
    by (rule stat_empty)
  note th = Snapshot_missing_baseline [OF st, of no_other marker black_pixel]
  have w: "writes (fsys (Snapshot no_other marker ?v False io_all_ok (runes ''foo'') black_pixel ?s))
        = [tempPath ?v (runes ''foo'')]"
    using th by (simp add: io_all_ok_def new_run_def empty_filesys_def)
  have d: "files (fsys (Snapshot no_other marker ?v False io_all_ok (runes ''foo'') black_pixel ?s))
             (diffPath ?v (runes ''foo'')) = files (fsys ?s) (diffPath ?v (runes ''foo''))"
    using th by metis
  have f: "failed (Snapshot no_other marker ?v False io_all_ok (runes ''foo'') black_pixel ?s)"
    using th by blast
  show ?thesis
    using st f w d by (simp add: paths_foo) (simp add: new_run_def empty_filesys_def)
qed

text \<open>
  In the same run no \<^verbatim>\<open>actual_foo.png\<close> exists afterwards: the captured image is in
  \<^verbatim>\<open>failed_foo.png\<close>.
\<close>

theorem Snapshot_missing_actual_counterexample:
  "os_Stat io_all_ok (fsys (new_run empty_filesys))
      (snapshotPath (New (runes ''.'')) (runes ''foo'')) = Stat_not_exist
   \<and> actualPath (New (runes ''.'')) (runes ''foo'') = runes ''testdata/screenshots/actual_foo.png''
   \<and> files (fsys (Snapshot no_other marker (New (runes ''.'')) False io_all_ok (runes ''foo'')
               black_pixel (new_run empty_filesys)))
         (runes ''testdata/screenshots/actual_foo.png'') = None
   \<and> files (fsys (Snapshot no_other marker (New (runes ''.'')) False io_all_ok (runes ''foo'')
               black_pixel (new_run empty_filesys)))
         (runes ''testdata/screenshots/failed_foo.png'') = Some (Encoded black_pixel)"
proof -
  let ?v = "New (runes ''.'')"
  let ?s = "new_run empty_filesys :: unit tstate"
  have st: "os_Stat io_all_ok (fsys ?s) (snapshotPath ?v (runes ''foo'')) = Stat_not_exist"
    by (rule stat_empty)
  have run: "fsys (Snapshot no_other marker ?v False io_all_ok (runes ''foo'') black_pixel ?s)
      = fst (saveImage io_all_ok (fsys ?s) (tempPath ?v (runes ''foo'')) black_pixel)"
    unfolding Snapshot_missing [OF st]
    by (simp add: Let_def T_Errorf_def T_Logf_def io_all_ok_def)
  have ne: "runes ''testdata/screenshots/actual_foo.png'' \<noteq> runes ''testdata/screenshots/failed_foo.png''"
    by (simp add: runes_def)
  show ?thesis
    unfolding run paths_foo
    using st ne
    by (simp add: paths_foo saveImage_def io_all_ok_def new_run_def empty_filesys_def)
qed

lemma Snapshot_update_ok:
  assumes "mkdirall_ok io (snapshotDir v)" and "create_ok io (snapshotPath v name)"
    and "encode_ok io (snapshotPath v name)"
  shows "Snapshot m ec v True io name img s =
     T_Logf (s\<lparr>fsys := \<lparr>files = (files (fsys s))(snapshotPath v name \<mapsto> Encoded img),
                         writes = writes (fsys s) @ [snapshotPath v name]\<rparr>\<rparr>)
       (Logf_updated (snapshotPath v name))"
  using assms by (simp add: Snapshot_def saveImage_def)

text \<open>
  \<^bold>\<open>C7\<close>. In update mode a run whose directory creation, file creation and encoding
  succeed leaves exactly the encoding of its own capture at the baseline path, whatever
  was there before and without marking the test failed; so after two update-mode runs of
  the same case the baseline is the second capture.
\<close>

theorem Snapshot_update_overwrites_baseline:
  assumes "mkdirall_ok io2 (snapshotDir v)" and "create_ok io2 (snapshotPath v name)"
    and "encode_ok io2 (snapshotPath v name)"
  shows "files (fsys (Snapshot m ec v True io2 name img2 s)) (snapshotPath v name)
           = Some (Encoded img2)
       \<and> files (fsys (Snapshot m ec v True io2 name img2
                        (new_run (fsys (Snapshot m ec v True io1 name img1 s0)))))
           (snapshotPath v name) = Some (Encoded img2)
       \<and> status (Snapshot m ec v True io2 name img2 s) = status s
       \<and> failed (Snapshot m ec v True io2 name img2 s) = failed s"
  by (simp add: Snapshot_update_ok [OF assms] T_Logf_def)

text \<open>Scenario 6: a black capture, then a white one, both for the case \<^verbatim>\<open>foo\<close>.\<close>

theorem Snapshot_update_overwrites_baseline_witness:
  "mkdirall_ok io_all_ok (snapshotDir (New (runes ''.'')))
   \<and> create_ok io_all_ok (snapshotPath (New (runes ''.'')) (runes ''foo''))
   \<and> encode_ok io_all_ok (snapshotPath (New (runes ''.'')) (runes ''foo''))
   \<and> files (fsys (Snapshot no_other marker (New (runes ''.'')) True io_all_ok (runes ''foo'')
                white_pixel
                (new_run (fsys (Snapshot no_other marker (New (runes ''.'')) True io_all_ok
                                  (runes ''foo'') black_pixel (new_run empty_filesys))))))
        (runes ''testdata/snapshots/foo.png'') = Some (Encoded white_pixel)
   \<and> Encoded white_pixel \<noteq> Encoded black_pixel"
proof -
  let ?v = "New (runes ''.'')"
  have a: "mkdirall_ok io_all_ok (snapshotDir ?v)"
    and b: "create_ok io_all_ok (snapshotPath ?v (runes ''foo''))"
    and c: "encode_ok io_all_ok (snapshotPath ?v (runes ''foo''))"
    by (simp_all add: io_all_ok_def)
  have "At white_pixel 0 0 \<noteq> At black_pixel 0 0"
    by (simp add: white_pixel_def black_pixel_def uniform_image_def)
  then have ne: "white_pixel \<noteq> black_pixel" by auto
  show ?thesis
    using Snapshot_update_overwrites_baseline
            [OF a b c, of no_other marker white_pixel "new_run empty_filesys" io_all_ok
               black_pixel "new_run empty_filesys"]
          a b c ne
    by (simp add: paths_foo)
qed

lemma Snapshot_verify_writes:
  "count_list (writes (fsys (Snapshot m ec v False io name img s))) (diffPath v name)
     \<le> count_list (writes (fsys s)) (diffPath v name) + 1
   \<and> (count_list (writes (fsys (Snapshot m ec v False io name img s))) (diffPath v name)
         \<noteq> count_list (writes (fsys s)) (diffPath v name) \<longrightarrow>
         (\<exists>expected. loadImage io (fsys s) (snapshotPath v name) = Some expected
                \<and> imagesEqual m expected img = Inr False \<and> Bounds expected = Bounds img))
   \<and> (count_list (writes (fsys (Snapshot m ec v False io name img s))) (diffPath v name)
         = count_list (writes (fsys s)) (diffPath v name) \<longrightarrow>
            files (fsys (Snapshot m ec v False io name img s)) (diffPath v name)
              = files (fsys s) (diffPath v name))"
proof (cases "os_Stat io (fsys s) (snapshotPath v name) = Stat_not_exist")
  case True
  show ?thesis
    unfolding Snapshot_missing [OF True]
    using tempPath_neq_diffPath [of v name]
    by (auto simp add: Let_def T_Errorf_def T_Logf_def saveImage_def)
next
  case ne: False
  show ?thesis
  proof (cases "loadImage io (fsys s) (snapshotPath v name)")
    case None
    then show ?thesis using ne by (simp add: Snapshot_def T_Fatalf_def)
  next
    case (Some expected)
    show ?thesis
    proof (cases "imagesEqual m expected img")
      case (Inl e)
      then show ?thesis using ne Some by (simp add: Snapshot_def)
    next
      case (Inr eq)
      show ?thesis
      proof (cases eq)
        case True
        then show ?thesis using ne Some Inr by (simp add: Snapshot_def T_Logf_def)
      next
        case neq: False
        show ?thesis
        proof (cases "mkdirall_ok io (screenshotDir v)")
          case False
          then show ?thesis using ne Some Inr neq by (simp add: Snapshot_def T_Errorf_def)
        next
          case mk: True
          show ?thesis
          proof (cases "Bounds expected = Bounds img")
            case False
            then have "createDiffImage (make_ok io) m ec expected img = Inr None"
              by (rule createDiffImage_bounds_differ)
            then show ?thesis
              using ne Some Inr neq mk actualPath_neq_diffPath [of v name]
              by (auto simp add: Snapshot_def Let_def T_Errorf_def T_Logf_def saveImage_def)
          next
            case True
            then show ?thesis
              using ne Some Inr neq mk actualPath_neq_diffPath [of v name]
              by (auto simp add: Snapshot_def Let_def T_Errorf_def T_Logf_def saveImage_def
                    split: sum.splits option.splits)
          qed
        qed
      qed
    qed
  qed
qed

lemma bounds_dims: "Bounds a = Bounds b \<Longrightarrow> Dx (Bounds a) = Dx (Bounds b) \<and> Dy (Bounds a) = Dy (Bounds b)"
  by simp

text \<open>
  \<^bold>\<open>C8\<close>. A verify-mode run writes the diff path at most once, and only when the
  loaded baseline differs from the capture and has the same dimensions (indeed the same
  bounds); when the dimensions differ the diff path is neither written nor changed.
\<close>

theorem Snapshot_at_most_one_diff:
  "diff_writes m ec v io name img s \<le> count_list (writes (fsys s)) (diffPath v name) + 1
   \<and> (diff_writes m ec v io name img s \<noteq> count_list (writes (fsys s)) (diffPath v name)
      \<longrightarrow> (\<exists>expected. loadImage io (fsys s) (snapshotPath v name) = Some expected
              \<and> imagesEqual m expected img = Inr False
              \<and> Dx (Bounds expected) = Dx (Bounds img)
              \<and> Dy (Bounds expected) = Dy (Bounds img)))
   \<and> (\<forall>expected. loadImage io (fsys s) (snapshotPath v name) = Some expected
          \<and> (Dx (Bounds expected) \<noteq> Dx (Bounds img) \<or> Dy (Bounds expected) \<noteq> Dy (Bounds img))
        \<longrightarrow> diff_writes m ec v io name img s = count_list (writes (fsys s)) (diffPath v name)
          \<and> files (fsys (Snapshot m ec v False io name img s)) (diffPath v name)
              = files (fsys s) (diffPath v name))"
proof -
  note L = Snapshot_verify_writes [of m ec v io name img s, folded diff_writes_def]
  have le: "diff_writes m ec v io name img s \<le> count_list (writes (fsys s)) (diffPath v name) + 1"
    using L by (rule conjunct1)
  have nz: "diff_writes m ec v io name img s \<noteq> count_list (writes (fsys s)) (diffPath v name) \<longrightarrow>
         (\<exists>expected. loadImage io (fsys s) (snapshotPath v name) = Some expected
                \<and> imagesEqual m expected img = Inr False \<and> Bounds expected = Bounds img)"
    using L [THEN conjunct2] by (rule conjunct1)
  have z: "diff_writes m ec v io name img s = count_list (writes (fsys s)) (diffPath v name) \<longrightarrow>
            files (fsys (Snapshot m ec v False io name img s)) (diffPath v name)
              = files (fsys s) (diffPath v name)"
    using L [THEN conjunct2] by (rule conjunct2)
  have 2: "diff_writes m ec v io name img s \<noteq> count_list (writes (fsys s)) (diffPath v name)
      \<longrightarrow> (\<exists>expected. loadImage io (fsys s) (snapshotPath v name) = Some expected
              \<and> imagesEqual m expected img = Inr False
              \<and> Dx (Bounds expected) = Dx (Bounds img)
              \<and> Dy (Bounds expected) = Dy (Bounds img))"
  proof
    assume "diff_writes m ec v io name img s \<noteq> count_list (writes (fsys s)) (diffPath v name)"
    with nz obtain expected where e: "loadImage io (fsys s) (snapshotPath v name) = Some expected"
      "imagesEqual m expected img = Inr False" "Bounds expected = Bounds img" by blast
    show "\<exists>expected. loadImage io (fsys s) (snapshotPath v name) = Some expected
              \<and> imagesEqual m expected img = Inr False
              \<and> Dx (Bounds expected) = Dx (Bounds img)
              \<and> Dy (Bounds expected) = Dy (Bounds img)"
      using e bounds_dims [OF e(3)] by (intro exI [of _ expected]) simp
  qed
  have 3: "\<forall>expected. loadImage io (fsys s) (snapshotPath v name) = Some expected
          \<and> (Dx (Bounds expected) \<noteq> Dx (Bounds img) \<or> Dy (Bounds expected) \<noteq> Dy (Bounds img))
        \<longrightarrow> diff_writes m ec v io name img s = count_list (writes (fsys s)) (diffPath v name)
          \<and> files (fsys (Snapshot m ec v False io name img s)) (diffPath v name)
              = files (fsys s) (diffPath v name)"
  proof (rule allI, rule impI)
    fix expected
    assume h: "loadImage io (fsys s) (snapshotPath v name) = Some expected
          \<and> (Dx (Bounds expected) \<noteq> Dx (Bounds img) \<or> Dy (Bounds expected) \<noteq> Dy (Bounds img))"
    then have nb: "Bounds expected \<noteq> Bounds img" by auto
    have eq: "diff_writes m ec v io name img s = count_list (writes (fsys s)) (diffPath v name)"
    proof (rule ccontr)
      assume "diff_writes m ec v io name img s \<noteq> count_list (writes (fsys s)) (diffPath v name)"
      with nz obtain e' where "loadImage io (fsys s) (snapshotPath v name) = Some e'"
        and "Bounds e' = Bounds img" by blast
      with h nb show False by simp
    qed
    with z show "diff_writes m ec v io name img s = count_list (writes (fsys s)) (diffPath v name)
          \<and> files (fsys (Snapshot m ec v False io name img s)) (diffPath v name)
              = files (fsys s) (diffPath v name)"
      by simp
  qed
  show ?thesis by (intro conjI) (rule le, rule 2, rule 3)
qed

text \<open>Scenario 4: a 1 by 1 baseline and a 2 by 1 capture.\<close>

theorem Snapshot_at_most_one_diff_witness:
  "loadImage io_all_ok (fsys (new_run (baseline_filesys black_pixel)))
      (snapshotPath (New (runes ''.'')) (runes ''foo'')) = Some black_pixel
   \<and> Dx (Bounds black_pixel) \<noteq> Dx (Bounds wide_black)
   \<and> diff_writes no_other marker (New (runes ''.'')) io_all_ok (runes ''foo'') wide_black
        (new_run (baseline_filesys black_pixel)) = 0
   \<and> files (fsys (Snapshot no_other marker (New (runes ''.'')) False io_all_ok
                     (runes ''foo'') wide_black (new_run (baseline_filesys black_pixel))))
        (runes ''testdata/screenshots/diff_foo.png'') = None"
proof -
  let ?v = "New (runes ''.'')"
  let ?s = "new_run (baseline_filesys black_pixel)"
  have ld: "loadImage io_all_ok (fsys ?s) (snapshotPath ?v (runes ''foo'')) = Some black_pixel"
    by (simp add: paths_foo loadImage_def io_all_ok_def new_run_def baseline_filesys_def)
  have dx: "Dx (Bounds black_pixel) \<noteq> Dx (Bounds wide_black)"
    by (simp add: black_pixel_def wide_black_def uniform_image_def rect_def Dx_def int64_def)
  have none: "files (fsys ?s) (diffPath ?v (runes ''foo'')) = None"
    unfolding paths_foo by (simp add: new_run_def baseline_filesys_def runes_def)
  have w0: "count_list (writes (fsys ?s)) (diffPath ?v (runes ''foo'')) = 0"
    by (simp add: new_run_def baseline_filesys_def)
  have hyp: "loadImage io_all_ok (fsys ?s) (snapshotPath ?v (runes ''foo'')) = Some black_pixel
     \<and> (Dx (Bounds black_pixel) \<noteq> Dx (Bounds wide_black)
          \<or> Dy (Bounds black_pixel) \<noteq> Dy (Bounds wide_black))"
    using ld dx by simp
  note th = Snapshot_at_most_one_diff
              [of no_other marker ?v io_all_ok "runes ''foo''" wide_black ?s,
               THEN conjunct2, THEN conjunct2, rule_format, OF hyp]
  have c: "diff_writes no_other marker ?v io_all_ok (runes ''foo'') wide_black ?s = 0"
    using th w0 by simp
  have f: "files (fsys (Snapshot no_other marker ?v False io_all_ok (runes ''foo'') wide_black ?s))
             (diffPath ?v (runes ''foo'')) = None"
    using th none by simp
  show ?thesis
    using ld dx c f unfolding paths_foo by simp
qed

section \<open>The runner\<close>

lemma first_invalid_None: "first_invalid name cs = None \<longleftrightarrow> (\<forall>c \<in> set cs. c \<notin> set name)"
  by (induction cs) auto

lemma Validate_negative:
  "sint (WaitDuration t) < 0 \<Longrightarrow> Validate t \<noteq> None"
  by (simp add: Validate_def split: option.splits)

text \<open>
  \<^bold>\<open>C10\<close>. For every test whose \<^verbatim>\<open>WaitDuration\<close> is negative, \<^verbatim>\<open>Validate\<close> returns an
  error, and \<^verbatim>\<open>RunTest\<close> returns a result with \<^verbatim>\<open>Success\<close> false, a non-nil \<^verbatim>\<open>Error\<close>
  and no screenshot, having made no call at all: no directory, no window, no capture, no
  file. When the name is non-empty and free of the forbidden characters and the setup
  function is present, the error is the one of the negative wait itself.
\<close>

theorem RunTest_negative_wait_fails_fast:
  "(sint (WaitDuration t) < 0 \<longrightarrow>
      Validate t \<noteq> None
      \<and> \<not> Success (fst (RunTest r env t))
      \<and> Error (fst (RunTest r env t)) \<noteq> None
      \<and> Screenshot (fst (RunTest r env t)) = None
      \<and> snd (RunTest r env t) = [])
   \<and> (sint (WaitDuration t) < 0 \<and> Name t \<noteq> [] \<and> (\<forall>c \<in> set invalidChars. c \<notin> set (Name t))
        \<and> Setup t \<noteq> None
      \<longrightarrow> Validate t = Some Negative_wait
          \<and> Error (fst (RunTest r env t)) = Some (Invalid_test_configuration Negative_wait))"
proof (intro conjI impI)
  assume neg: "sint (WaitDuration t) < 0"
  then obtain e where e: "Validate t = Some e" using Validate_negative [of t] by auto
  show "Validate t \<noteq> None" using e by simp
  show "\<not> Success (fst (RunTest r env t))" using e by (simp add: RunTest_def)
  show "Error (fst (RunTest r env t)) \<noteq> None" using e by (simp add: RunTest_def)
  show "Screenshot (fst (RunTest r env t)) = None" using e by (simp add: RunTest_def)
  show "snd (RunTest r env t) = []" using e by (simp add: RunTest_def)
next
  assume h: "sint (WaitDuration t) < 0 \<and> Name t \<noteq> [] \<and> (\<forall>c \<in> set invalidChars. c \<notin> set (Name t))
        \<and> Setup t \<noteq> None"
  then have fi: "first_invalid (Name t) invalidChars = None" by (simp add: first_invalid_None)
  with h show v: "Validate t = Some Negative_wait" by (auto simp add: Validate_def)
  then show "Error (fst (RunTest r env t)) = Some (Invalid_test_configuration Negative_wait)"
    by (simp add: RunTest_def)
qed

text \<open>A test that is well formed but for a wait of -1 ns; with a wait of 0 it succeeds.\<close>

theorem RunTest_negative_wait_fails_fast_witness:
  "sint (WaitDuration negative_wait_test) < 0
   \<and> Name negative_wait_test \<noteq> []
   \<and> first_invalid (Name negative_wait_test) invalidChars = None
   \<and> Setup negative_wait_test \<noteq> None
   \<and> Validate negative_wait_test = Some Negative_wait
   \<and> \<not> Success (fst (RunTest default_runner ok_run_env negative_wait_test))
   \<and> Error (fst (RunTest default_runner ok_run_env negative_wait_test))
       = Some (Invalid_test_configuration Negative_wait)
   \<and> snd (RunTest default_runner ok_run_env negative_wait_test) = []"
proof -
  have neg: "sint (WaitDuration negative_wait_test) < 0"
    by (simp add: negative_wait_test_def)
  have nm: "Name negative_wait_test \<noteq> []"
    by (simp add: negative_wait_test_def runes_def)
  have ch: "\<forall>c \<in> set invalidChars. c \<notin> set (Name negative_wait_test)"
    by (simp add: negative_wait_test_def runes_def invalidChars_def)
  have st: "Setup negative_wait_test \<noteq> None"
    by (simp add: negative_wait_test_def)
  note th = RunTest_negative_wait_fails_fast [of negative_wait_test default_runner ok_run_env]
  from th neg have a: "\<not> Success (fst (RunTest default_runner ok_run_env negative_wait_test))"
    and b: "snd (RunTest default_runner ok_run_env negative_wait_test) = []"
    by simp_all
  from th neg nm ch st have c: "Validate negative_wait_test = Some Negative_wait"
    and d: "Error (fst (RunTest default_runner ok_run_env negative_wait_test))
              = Some (Invalid_test_configuration Negative_wait)"
    by simp_all
  have fi: "first_invalid (Name negative_wait_test) invalidChars = None"
    using ch by (simp only: first_invalid_None)
  show ?thesis using neg nm fi st a b c d by simp
qed

lemma RunTest_zero_wait_example:
  "Success (fst (RunTest default_runner ok_run_env (negative_wait_test\<lparr>WaitDuration := 0\<rparr>)))"
  by (simp add: RunTest_def Validate_def negative_wait_test_def default_runner_def ok_run_env_def
        invalidChars_def runes_def Let_def)

section \<open>Summaries\<close>

lemma summary_step_eq:
  "summary_step r s =
     s\<lparr>Passed := Passed s + (if Success r then 1 else 0),
       Failed := Failed s + (if Success r then 0 else 1),
       TotalDuration := TotalDuration s + Duration r\<rparr>"
  by (simp add: summary_step_def Let_def)

lemma fold_summary_step:
  "fold summary_step rs s =
     s\<lparr>Passed := Passed s + int (length (filter Success rs)),
       Failed := Failed s + int (length (filter (\<lambda>r. \<not> Success r) rs)),
       TotalDuration := TotalDuration s + sum_list (map Duration rs)\<rparr>"
proof (induction rs arbitrary: s)
  case Nil
  show ?case by simp
next
  case (Cons r rs)
  have "fold summary_step (r # rs) s = fold summary_step rs (summary_step r s)" by simp
  also have "\<dots> = (summary_step r s)
      \<lparr>Passed := Passed (summary_step r s) + int (length (filter Success rs)),
       Failed := Failed (summary_step r s) + int (length (filter (\<lambda>r. \<not> Success r) rs)),
       TotalDuration := TotalDuration (summary_step r s) + sum_list (map Duration rs)\<rparr>"
    by (rule Cons)
  also have "\<dots> = s\<lparr>Passed := Passed s + int (length (filter Success (r # rs))),
       Failed := Failed s + int (length (filter (\<lambda>r. \<not> Success r) (r # rs))),
       TotalDuration := TotalDuration s + sum_list (map Duration (r # rs))\<rparr>"
    by (simp add: summary_step_eq add.assoc)
  finally show ?case .
qed

lemma length_filter_not:
  "int (length (filter (\<lambda>r. \<not> P r) rs)) = int (length rs) - int (length (filter P rs))"
  using sum_length_filter_compl [of P rs] by simp

lemma count_passed_eq:
  "count_passed rs c = c + int (length (filter Success rs))"
  by (induction rs arbitrary: c) simp_all

lemma createSummary_fields:
  "Total (createSummary ops rs) = int (length rs)"
  "Passed (createSummary ops rs) = int (length (filter Success rs))"
  "Failed (createSummary ops rs) = int (length (filter (\<lambda>r. \<not> Success r) rs))"
  "TotalDuration (createSummary ops rs) = sum_list (map Duration rs)"
  "PassRate (createSummary ops rs) =
     (if rs = [] then float64_of_int ops 0
      else fmul ops (fdiv ops (float64_of_int ops (int (length (filter Success rs))))
                              (float64_of_int ops (int (length rs))))
                    (float64_of_int ops 100))"
  by (simp_all add: createSummary_def Let_def fold_summary_step)

text \<open>
  \<^bold>\<open>C6\<close>. The summary is a function of the result sequence: the total is its length,
  passed counts the successful results, failed is total minus passed, the pass rate is
  \<^verbatim>\<open>float64(passed) / float64(total) * 100\<close> and \<^verbatim>\<open>0\<close> for an empty sequence, and the
  duration is the sum of the per-case durations. The \<^verbatim>\<open>Total\<close>, \<^verbatim>\<open>Passed\<close>, \<^verbatim>\<open>Failed\<close>
  and \<^verbatim>\<open>PassRate\<close> methods of \<^verbatim>\<open>SuiteResult\<close> give the same values.
\<close>

theorem createSummary_totals:
  "Total (createSummary ops rs) = int (length rs)
   \<and> Passed (createSummary ops rs) = int (length (filter Success rs))
   \<and> Failed (createSummary ops rs) = Total (createSummary ops rs) - Passed (createSummary ops rs)
   \<and> PassRate (createSummary ops rs) =
       (if Total (createSummary ops rs) = 0 then float64_of_int ops 0
        else fmul ops (fdiv ops (float64_of_int ops (Passed (createSummary ops rs)))
                                (float64_of_int ops (Total (createSummary ops rs))))
                      (float64_of_int ops 100))
   \<and> TotalDuration (createSummary ops rs) = sum_list (map Duration rs)
   \<and> SuiteResult_Total \<lparr>Results = rs, ResultOutputDir = od, ReportPath = rp\<rparr>
       = Total (createSummary ops rs)
   \<and> SuiteResult_Passed \<lparr>Results = rs, ResultOutputDir = od, ReportPath = rp\<rparr>
       = Passed (createSummary ops rs)
   \<and> SuiteResult_Failed \<lparr>Results = rs, ResultOutputDir = od, ReportPath = rp\<rparr>
       = Failed (createSummary ops rs)
   \<and> SuiteResult_PassRate ops \<lparr>Results = rs, ResultOutputDir = od, ReportPath = rp\<rparr>
       = PassRate (createSummary ops rs)"
  by (simp add: createSummary_fields length_filter_not SuiteResult_Total_def
        SuiteResult_Passed_def SuiteResult_Failed_def SuiteResult_PassRate_def count_passed_eq)

section \<open>Reports and the exit status\<close>

lemma GenerateHTMLReport_error:
  "fst (GenerateHTMLReport env) = None \<longleftrightarrow> html_report_ok env"
  by (auto simp add: GenerateHTMLReport_def html_report_ok_def GenerateJSONReport_def
        split: prod.splits option.splits)

lemma Failed_pos_iff:
  "SuiteResult_Failed \<lparr>Results = rs, ResultOutputDir = od, ReportPath = rp\<rparr> > 0
     \<longleftrightarrow> (\<exists>r \<in> set rs. \<not> Success r)"
proof -
  have "SuiteResult_Failed \<lparr>Results = rs, ResultOutputDir = od, ReportPath = rp\<rparr>
          = int (length (filter (\<lambda>r. \<not> Success r) rs))"
    by (simp add: SuiteResult_Failed_def SuiteResult_Total_def SuiteResult_Passed_def
          count_passed_eq length_filter_not)
  then show ?thesis by (auto simp add: filter_empty_conv)
qed

lemma RunCLI_exit_eq:
  "RunCLI_exit config env rs od =
     (if GenerateReport config \<and> \<not> html_report_ok env then 1
      else if \<exists>r \<in> set rs. \<not> Success r then 1 else 0)"
proof (cases "GenerateReport config")
  case False
  then show ?thesis
    by (simp add: RunCLI_exit_def Suite_RunTests_def Let_def Failed_pos_iff)
next
  case True
  obtain e fs ws where g: "GenerateHTMLReport env = (e, fs, ws)" by (metis prod_cases3)
  then have e: "e = None \<longleftrightarrow> html_report_ok env"
    using GenerateHTMLReport_error [of env] by simp
  show ?thesis
  proof (cases e)
    case None
    then show ?thesis
      using True g e
      by (simp add: RunCLI_exit_def Suite_RunTests_def Let_def Failed_pos_iff)
  next
    case (Some err)
    then show ?thesis
      using True g e by (simp add: RunCLI_exit_def Suite_RunTests_def Let_def)
  qed
qed

lemma count_results_eq:
  "count_results rs (a, b) =
     (a + int (length (filter Success rs)), b + int (length (filter (\<lambda>r. \<not> Success r) rs)))"
  by (induction rs arbitrary: a b) simp_all

lemma main_exit_eq:
  "fst (main_exit env rs) = (if \<exists>r \<in> set rs. \<not> Success r then 1 else 0)"
proof -
  obtain e fs ws where g: "GenerateHTMLReport env = (e, fs, ws)" by (metis prod_cases3)
  have pos: "0 < int (length (filter (\<lambda>r. \<not> Success r) rs)) \<longleftrightarrow> (\<exists>r \<in> set rs. \<not> Success r)"
    by (auto simp add: filter_empty_conv)
  show ?thesis
    using pos by (cases e) (simp_all add: main_exit_def count_results_eq g)
qed

text \<open>
  \<^bold>\<open>C5\<close> (as the code has it). \<^verbatim>\<open>Suite.RunCLI\<close> exits with 0 exactly when every case
  passed and, if report generation is enabled, the HTML report was written; otherwise
  with 1. A failure of the JSON report never changes the exit status. When the HTML
  report is written or report generation is disabled, the status is 0 exactly when every
  case passed. The standalone runner only warns about a failed HTML report: its status
  is 0 exactly when every case passed.
\<close>

theorem RunCLI_exit_code:
  "(RunCLI_exit config env rs od = 0 \<longleftrightarrow>
      (\<forall>r \<in> set rs. Success r) \<and> (GenerateReport config \<longrightarrow> html_report_ok env))
   \<and> (RunCLI_exit config env rs od = 0 \<or> RunCLI_exit config env rs od = 1)
   \<and> RunCLI_exit config (env\<lparr>json_create_ok := jc, json_encode_ok := je\<rparr>) rs od
       = RunCLI_exit config env rs od
   \<and> (\<not> GenerateReport config \<or> html_report_ok env \<longrightarrow>
        (RunCLI_exit config env rs od = 0 \<longleftrightarrow> (\<forall>r \<in> set rs. Success r)))
   \<and> (fst (main_exit env rs) = 0 \<longleftrightarrow> (\<forall>r \<in> set rs. Success r))"
  by (auto simp add: RunCLI_exit_eq main_exit_eq html_report_ok_def)

text \<open>
  One passed case and a failing JSON report: status 0. A failed case: status 1. The
  standalone runner with a failing HTML report and one passed case: status 0.
\<close>

theorem RunCLI_exit_code_witness:
  "RunCLI_exit \<lparr>GenerateReport = True\<rparr> (report_env_ok\<lparr>json_create_ok := False\<rparr>)
      [passed_result] (runes ''test-screenshots/20260101-000000'') = 0
   \<and> RunCLI_exit \<lparr>GenerateReport = True\<rparr> report_env_ok
      [passed_result, passed_result\<lparr>Success := False\<rparr>]
      (runes ''test-screenshots/20260101-000000'') = 1
   \<and> fst (main_exit (report_env_ok\<lparr>html_create_ok := False\<rparr>) [passed_result]) = 0"
proof -
  let ?od = "runes ''test-screenshots/20260101-000000''"
  have ok: "html_report_ok (report_env_ok\<lparr>json_create_ok := False\<rparr>)" "html_report_ok report_env_ok"
    by (simp_all add: html_report_ok_def report_env_ok_def)
  have p: "Success passed_result" by (simp add: passed_result_def)
  have 1: "RunCLI_exit \<lparr>GenerateReport = True\<rparr> (report_env_ok\<lparr>json_create_ok := False\<rparr>)
             [passed_result] ?od = 0"
    using RunCLI_exit_code [of "\<lparr>GenerateReport = True\<rparr>" "report_env_ok\<lparr>json_create_ok := False\<rparr>"
                              "[passed_result]" ?od False True] ok p
    by simp
  have 2: "RunCLI_exit \<lparr>GenerateReport = True\<rparr> report_env_ok
             [passed_result, passed_result\<lparr>Success := False\<rparr>] ?od = 1"
    using RunCLI_exit_code [of "\<lparr>GenerateReport = True\<rparr>" report_env_ok
                              "[passed_result, passed_result\<lparr>Success := False\<rparr>]" ?od True True] ok p
    by auto
  have 3: "fst (main_exit (report_env_ok\<lparr>html_create_ok := False\<rparr>) [passed_result]) = 0"
    using RunCLI_exit_code [of "\<lparr>GenerateReport = True\<rparr>" "report_env_ok\<lparr>html_create_ok := False\<rparr>"
                              "[passed_result]" ?od True True] p
    by simp
  show ?thesis using 1 2 3 by simp
qed

text \<open>
  With every case passed, \<^verbatim>\<open>Suite.RunCLI\<close> still exits with 1 when the HTML report file
  cannot be created: \<^verbatim>\<open>RunTests\<close> returns the error and \<^verbatim>\<open>RunCLI\<close> exits on it.
\<close>

theorem RunCLI_html_failure_counterexample:
  "Success passed_result
   \<and> RunCLI_exit \<lparr>GenerateReport = True\<rparr> (report_env_ok\<lparr>html_create_ok := False\<rparr>)
        [passed_result] (runes ''test-screenshots/20260101-000000'') = 1
   \<and> RunCLI_exit \<lparr>GenerateReport = True\<rparr> report_env_ok
        [passed_result] (runes ''test-screenshots/20260101-000000'') = 0"
  by (simp add: RunCLI_exit_def Suite_RunTests_def GenerateHTMLReport_def GenerateJSONReport_def
        report_env_ok_def passed_result_def Let_def SuiteResult_Failed_def SuiteResult_Total_def
        SuiteResult_Passed_def)


end
